theory Spec2Isabelle
  imports Complex_Main "HOL-Library.AList" "HOL-Library.Sublist"
begin

section \<open>Strings and numbers of the source language\<close>

text \<open>
  TypeScript strings are modelled as \<open>string\<close> (lists of 8-bit characters), which
  covers the ASCII names and markers the mapper and the validator look for.
  \<open>toLowerCase\<close> lowers the letters A..Z and leaves every other character alone.
  JavaScript numbers are modelled as \<open>real\<close>: every finite double is a real number and
  \<open>\<le>\<close>, \<open><\<close>, \<open>>\<close> on finite doubles are the comparisons of the reals. An absent
  (\<open>undefined\<close>) field is \<open>None\<close>; a comparison with \<open>undefined\<close> is false.
\<close>

definition toLowerChar :: "char \<Rightarrow> char" where
  "toLowerChar c =
     (let n = (of_char c :: nat) in if 65 \<le> n \<and> n \<le> 90 then char_of (n + 32) else c)"

definition toLowerCase :: "string \<Rightarrow> string" where
  "toLowerCase s = map toLowerChar s"

text \<open>\<open>s.includes(p)\<close>: \<open>p\<close> occurs in \<open>s\<close> as a contiguous substring.\<close>

primrec str_includes :: "string \<Rightarrow> string \<Rightarrow> bool" where
  "str_includes [] p = (p = [])"
| "str_includes (c # cs) p = (prefix p (c # cs) \<or> str_includes cs p)"

text \<open>
  Truthiness of an optional string: \<open>undefined\<close> and the empty string are falsy. For an
  optional number, \<open>undefined\<close> and \<open>0\<close> are falsy; this is written out where it is
  tested.
\<close>

definition truthy_str :: "string option \<Rightarrow> bool" where
  "truthy_str s = (case s of None \<Rightarrow> False | Some x \<Rightarrow> x \<noteq> [])"

text \<open>\<open>x?.toLowerCase() || ''\<close>, as \<open>detectButtonVariant\<close> and \<open>detectSize\<close> read the name.\<close>

definition lowerOrEmpty :: "string option \<Rightarrow> string" where
  "lowerOrEmpty s = (case s of None \<Rightarrow> [] | Some x \<Rightarrow> toLowerCase x)"

section \<open>Data model\<close>

text \<open>
  The value of a prop (\<open>Record<string, any>\<close>): the mapper stores strings, numbers and
  booleans; a lookup in an alignment table with a key that every object inherits (such
  as \<open>constructor\<close>) stores the inherited member itself, kept here by its key. A prop
  bag keeps its keys in insertion order, assignment to an existing key replaces the
  value in place: an association list with \<open>AList.update\<close>.
\<close>

datatype pval = PStr string | PNum real | PBool bool | PInherited string

type_synonym props = "(string \<times> pval) list"

datatype color = RGBA real real real real

record fill =
  f_opacity :: "real option"
  f_color :: "color option"

text \<open>
  A spacing argument of \<open>mapSpacing\<close>: a number, or an object. All that \<open>mapSpacing\<close>
  reads of an object is the value of
  \<open>(value.top + value.right + value.bottom + value.left) / 4\<close>, computed in the engine's
  double arithmetic. The object is represented by that value: \<open>Some x\<close> for the number
  \<open>x\<close>, \<open>None\<close> when it is NaN (a side is missing or not a number).
\<close>

datatype spacing = Px real | Sides "real option"

record layout =
  l_mode :: "string option"
  l_gap :: "spacing option"
  l_align :: "string option"
  l_justify :: "string option"

record style =
  s_fontSize :: "real option"
  s_fontWeight :: "real option"
  s_textAlign :: "string option"

text \<open>
  The fields of a Figma node that the two mapper variants read. \<open>n_height\<close> is
  \<open>absoluteBoundingBox?.height\<close>. The last four fields are read only by the mapper of
  the implementation guide (\<open>salt-mapper.ts\<close>).
\<close>

record attrs =
  n_name :: "string option"
  n_type :: string
  n_text :: "string option"
  n_visible :: "bool option"
  n_fills :: "fill list option"
  n_cornerRadius :: "real option"
  n_layout :: "layout option"
  n_padding :: "spacing option"
  n_height :: "real option"
  n_style :: "style option"
  n_layoutMode :: "string option"
  n_itemSpacing :: "real option"
  n_primaryAxisAlignItems :: "string option"
  n_backgroundColor :: "color option"

text \<open>
  A design node: its fields and its ordered children. A node without a \<open>children\<close>
  field and a node with an empty one are treated alike by every function below
  (\<open>forEach\<close> on an empty array does nothing), so both are the empty list.
\<close>

datatype node = Node (attrs: attrs) (children: "node list")

datatype saltComponent =
  SaltComponent (c_type: string) (c_import: string) (c_props: props)
    (c_children: "saltComponent list") (c_content: "string option")

section \<open>The mapper of salt-component-mapper.ts\<close>

definition componentMap :: "(string \<times> string) list" where
  "componentMap =
    [(''Button'', ''@salt-ds/core/Button''),
     (''Input'', ''@salt-ds/core/Input''),
     (''Card'', ''@salt-ds/core/Card''),
     (''Text'', ''@salt-ds/core/Text''),
     (''Stack'', ''@salt-ds/core/StackLayout''),
     (''Grid'', ''@salt-ds/core/GridLayout''),
     (''Flex'', ''@salt-ds/core/FlexLayout''),
     (''Dropdown'', ''@salt-ds/core/Dropdown''),
     (''Checkbox'', ''@salt-ds/core/Checkbox''),
     (''Radio'', ''@salt-ds/core/RadioButton''),
     (''Switch'', ''@salt-ds/core/Switch''),
     (''Dialog'', ''@salt-ds/core/Dialog''),
     (''Tabs'', ''@salt-ds/core/Tabs''),
     (''Avatar'', ''@salt-ds/core/Avatar''),
     (''Badge'', ''@salt-ds/core/Badge''),
     (''Tooltip'', ''@salt-ds/core/Tooltip'')]"

text \<open>
  The loop \<open>for (const [figmaName, _] of Object.entries(componentMap))\<close> with its
  \<open>return figmaName\<close> at the first hit: entries come in declaration order.
\<close>

definition firstCatalogHit :: "string \<Rightarrow> string option" where
  "firstCatalogHit name =
     List.find (\<lambda>figmaName. str_includes (toLowerCase name) (toLowerCase figmaName))
       (map fst componentMap)"

definition cornerRadiusPositive :: "attrs \<Rightarrow> bool" where
  "cornerRadiusPositive n = (case n_cornerRadius n of None \<Rightarrow> False | Some r \<Rightarrow> r > 0)"

definition layoutModeIs :: "attrs \<Rightarrow> string \<Rightarrow> bool" where
  "layoutModeIs n m = (case n_layout n of None \<Rightarrow> False | Some l \<Rightarrow> l_mode l = Some m)"

definition matchComponentName :: "string option \<Rightarrow> string option" where
  "matchComponentName name =
     (case (if truthy_str name then name else None) of
        None \<Rightarrow> None
      | Some nm \<Rightarrow>
        let normalizedName = toLowerCase nm in
        (case List.find (\<lambda>componentName. str_includes normalizedName (toLowerCase componentName))
                (map fst componentMap) of
           Some componentName \<Rightarrow> Some componentName
         | None \<Rightarrow>
             if str_includes normalizedName ''btn'' \<or> str_includes normalizedName ''cta''
               then Some ''Button''
             else if str_includes normalizedName ''input'' \<or> str_includes normalizedName ''field''
               then Some ''Input''
             else if str_includes normalizedName ''dropdown'' \<or> str_includes normalizedName ''select''
               then Some ''Dropdown''
             else if str_includes normalizedName ''card'' \<or> str_includes normalizedName ''tile''
               then Some ''Card''
             else if str_includes normalizedName ''modal'' \<or> str_includes normalizedName ''dialog''
               then Some ''Dialog''
             else None))"

definition detectComponentType :: "attrs \<Rightarrow> string option" where
  "detectComponentType n =
     (case (case n_name n of None \<Rightarrow> None
            | Some x \<Rightarrow> if x \<noteq> [] then firstCatalogHit x else None) of
        Some figmaName \<Rightarrow> Some figmaName
      | None \<Rightarrow>
          if n_type n = ''TEXT'' then Some ''Text''
          else if n_type n = ''FRAME'' then
            (if layoutModeIs n ''VERTICAL'' then Some ''Stack''
             else if layoutModeIs n ''HORIZONTAL'' then Some ''Flex''
             else if cornerRadiusPositive n then Some ''Card''
             else Some ''Box'')
          else if n_type n = ''RECTANGLE'' then
            (if (case n_name n of None \<Rightarrow> False
                 | Some x \<Rightarrow> str_includes (toLowerCase x) ''button'') then Some ''Button''
             else if cornerRadiusPositive n then Some ''Card''
             else Some ''Box'')
          else if n_type n = ''COMPONENT'' \<or> n_type n = ''INSTANCE'' then
            matchComponentName (n_name n)
          else None)"

text \<open>\<open>node.fills?.[0]\<close>: the first fill, when there is one.\<close>

definition firstFill :: "attrs \<Rightarrow> fill option" where
  "firstFill n = (case n_fills n of Some (f # _) \<Rightarrow> Some f | _ \<Rightarrow> None)"

definition detectButtonVariant :: "attrs \<Rightarrow> string" where
  "detectButtonVariant n =
     (let name = lowerOrEmpty (n_name n) in
      if str_includes name ''primary''
         \<or> (case firstFill n of None \<Rightarrow> False | Some f \<Rightarrow> f_color f \<noteq> None)
        then ''primary''
      else if str_includes name ''secondary'' then ''secondary''
      else if str_includes name ''ghost'' \<or> str_includes name ''text'' then ''ghost''
      else ''primary'')"

definition detectSize :: "attrs \<Rightarrow> string" where
  "detectSize n =
     (let height = n_height n; name = lowerOrEmpty (n_name n) in
      if str_includes name ''small'' \<or> (case height of None \<Rightarrow> False | Some h \<Rightarrow> h < 32)
        then ''small''
      else if str_includes name ''large'' \<or> (case height of None \<Rightarrow> False | Some h \<Rightarrow> h > 48)
        then ''large''
      else ''medium'')"

text \<open>
  \<open>mapSpacing\<close>: an object is replaced by the average of its four sides first;
  \<open>undefined\<close> and NaN fail every comparison and land in the last bucket. The argument
  \<open>null\<close> (on which the source throws) and an infinite average are not modelled.
\<close>

definition mapSpacing :: "spacing option \<Rightarrow> real" where
  "mapSpacing v =
     (case (case v of None \<Rightarrow> None
            | Some (Px x) \<Rightarrow> Some x
            | Some (Sides average) \<Rightarrow> average) of
        None \<Rightarrow> 6
      | Some x \<Rightarrow>
          if x \<le> 4 then 1
          else if x \<le> 8 then 2
          else if x \<le> 16 then 3
          else if x \<le> 24 then 4
          else if x \<le> 32 then 5
          else 6)"

text \<open>
  The keys every object literal inherits from \<open>Object.prototype\<close>. The value found
  under such a key is a function (for \<open>__proto__\<close> the prototype object), which is truthy.
\<close>

definition objectPrototypeKeys :: "string list" where
  "objectPrototypeKeys =
     [''constructor'', ''__defineGetter__'', ''__defineSetter__'', ''hasOwnProperty'',
      ''__lookupGetter__'', ''__lookupSetter__'', ''isPrototypeOf'', ''propertyIsEnumerable'',
      ''toString'', ''valueOf'', ''__proto__'', ''toLocaleString'']"

text \<open>
  \<open>table[key] || 'start'\<close> on an object literal \<open>table\<close> whose own values are non-empty
  strings: the own value of the key, else the inherited member of that name, else
  \<open>'start'\<close>. The key \<open>undefined\<close> names no entry.
\<close>

definition tableOrStart :: "(string \<times> string) list \<Rightarrow> string option \<Rightarrow> pval" where
  "tableOrStart table key =
     (case key of
        None \<Rightarrow> PStr ''start''
      | Some k \<Rightarrow>
          (case map_of table k of
             Some r \<Rightarrow> PStr r
           | None \<Rightarrow> if k \<in> set objectPrototypeKeys then PInherited k else PStr ''start''))"

definition mapAlignment :: "string option \<Rightarrow> pval" where
  "mapAlignment align =
     tableOrStart [(''MIN'', ''start''), (''CENTER'', ''center''), (''MAX'', ''end''),
                   (''SPACE_BETWEEN'', ''stretch'')] align"

definition mapJustify :: "string option \<Rightarrow> pval" where
  "mapJustify justify =
     tableOrStart [(''MIN'', ''start''), (''CENTER'', ''center''), (''MAX'', ''end''),
                   (''SPACE_BETWEEN'', ''space-between''),
                   (''SPACE_AROUND'', ''space-around''),
                   (''SPACE_EVENLY'', ''space-evenly'')] justify"

definition extractStyleProps :: "style \<Rightarrow> props" where
  "extractStyleProps st =
     (let p0 = [];
          p1 = (case s_fontSize st of
                  Some x \<Rightarrow> if x \<noteq> 0 then AList.update ''fontSize'' (PNum x) p0 else p0
                | None \<Rightarrow> p0);
          p2 = (case s_fontWeight st of
                  Some x \<Rightarrow> if x \<noteq> 0 then AList.update ''fontWeight'' (PNum x) p1 else p1
                | None \<Rightarrow> p1);
          p3 = (case s_textAlign st of
                  Some x \<Rightarrow> if x \<noteq> [] then AList.update ''textAlign'' (PStr (toLowerCase x)) p2
                            else p2
                | None \<Rightarrow> p2)
      in p3)"

text \<open>\<open>Object.assign(target, source)\<close>: every entry of the source is assigned in order.\<close>

definition assign :: "props \<Rightarrow> props \<Rightarrow> props" where
  "assign target source = foldl (\<lambda>acc kv. AList.update (fst kv) (snd kv) acc) target source"

text \<open>Truthiness of \<open>node.padding\<close>: an object is truthy, the number \<open>0\<close> is not.\<close>

definition truthy_spacing :: "spacing option \<Rightarrow> bool" where
  "truthy_spacing v = (case v of None \<Rightarrow> False | Some (Px x) \<Rightarrow> x \<noteq> 0 | Some _ \<Rightarrow> True)"

definition extractProps :: "attrs \<Rightarrow> string \<Rightarrow> props" where
  "extractProps n componentType =
     (let p0 = (if n_visible n = Some False then AList.update ''hidden'' (PBool True) [] else []);
          p1 =
            (if componentType = ''Button'' then
               (let q1 = AList.update ''variant'' (PStr (detectButtonVariant n)) p0;
                    q2 = AList.update ''size'' (PStr (detectSize n)) q1
                in if (case n_name n of None \<Rightarrow> False
                       | Some x \<Rightarrow> str_includes (toLowerCase x) ''disabled'')
                   then AList.update ''disabled'' (PBool True) q2 else q2)
             else if componentType = ''Input'' then
               (let q1 = AList.update ''placeholder''
                           (PStr (case n_name n of
                                    Some x \<Rightarrow> if x \<noteq> [] then x else ''Enter text...''
                                  | None \<Rightarrow> ''Enter text...'')) p0
                in if (case n_name n of None \<Rightarrow> False
                       | Some x \<Rightarrow> str_includes (toLowerCase x) ''error'')
                   then AList.update ''validationStatus'' (PStr ''error'') q1 else q1)
             else if componentType = ''Card'' then
               (let q1 = (case firstFill n of
                            None \<Rightarrow> p0
                          | Some f \<Rightarrow>
                              AList.update ''variant''
                                (PStr (if (case f_opacity f of None \<Rightarrow> False | Some opac \<Rightarrow> opac < 1)
                                       then ''secondary'' else ''primary'')) p0)
                in if truthy_spacing (n_padding n)
                   then AList.update ''padding'' (PNum (mapSpacing (n_padding n))) q1 else q1)
             else if componentType = ''Stack'' \<or> componentType = ''Flex'' then
               (case n_layout n of
                  None \<Rightarrow> p0
                | Some l \<Rightarrow>
                    (let q1 = AList.update ''gap'' (PNum (mapSpacing (l_gap l))) p0;
                         q2 = AList.update ''align'' (mapAlignment (l_align l)) q1
                     in if componentType = ''Flex''
                        then AList.update ''justify'' (mapJustify (l_justify l)) q2
                        else q2))
             else p0)
      in (case n_style n of None \<Rightarrow> p1 | Some st \<Rightarrow> assign p1 (extractStyleProps st)))"

definition createSaltComponent :: "attrs \<Rightarrow> saltComponent option" where
  "createSaltComponent n =
     (case detectComponentType n of
        None \<Rightarrow> None
      | Some componentType \<Rightarrow>
          Some (SaltComponent componentType
                  (case map_of componentMap componentType of
                     Some imp \<Rightarrow> imp | None \<Rightarrow> componentType)
                  (extractProps n componentType)
                  []
                  (if n_type n = ''TEXT'' \<and> truthy_str (n_text n) then n_text n else None)))"

text \<open>
  The output is built by mutation: \<open>processNode(node, components, parent)\<close> pushes a
  new node onto \<open>parent.children\<close> when a parent is given and onto \<open>components\<close>
  otherwise, and then hands the new node on as the parent of the recursive calls, which
  push onto its \<open>children\<close> through the same reference. Every output node is referenced
  from exactly one array, so a reference is modelled by its position: the state is the
  whole forest \<open>components\<close>, and an array of the forest is addressed by a path, the
  list of child indices that leads to it. The empty path is \<open>components\<close> itself (no
  parent given); the path \<open>p @ [i]\<close> is the \<open>children\<close> array of the \<open>i\<close>-th element of
  the array at \<open>p\<close>. Arrays only grow at their end, so a path stays valid.
\<close>

type_synonym path = "nat list"

text \<open>The array at a path, when the path leads to one.\<close>

primrec arrayAt :: "path \<Rightarrow> saltComponent list \<Rightarrow> saltComponent list option" where
  "arrayAt [] forest = Some forest"
| "arrayAt (i # p) forest =
     (if i < length forest then arrayAt p (c_children (forest ! i)) else None)"

text \<open>\<open>array.push(...items)\<close> on the array at a path; the rest of the forest is unchanged.\<close>

primrec pushAt :: "path \<Rightarrow> saltComponent list \<Rightarrow> saltComponent list \<Rightarrow> saltComponent list" where
  "pushAt [] items forest = forest @ items"
| "pushAt (i # p) items forest =
     (if i < length forest
      then forest[i := SaltComponent (c_type (forest ! i)) (c_import (forest ! i))
                         (c_props (forest ! i)) (pushAt p items (c_children (forest ! i)))
                         (c_content (forest ! i))]
      else forest)"

text \<open>The length of the array at a path: the index the next pushed element gets.\<close>

definition lengthAt :: "path \<Rightarrow> saltComponent list \<Rightarrow> nat" where
  "lengthAt p forest = (case arrayAt p forest of Some arr \<Rightarrow> length arr | None \<Rightarrow> 0)"

text \<open>
  \<open>processNode\<close>: \<open>target\<close> is the path of the array the call pushes onto
  (\<open>parent.children\<close>, or \<open>components\<close> when no parent is given). A mapped node is pushed
  there, and its children are processed with the new node's \<open>children\<close> array as target;
  an unmapped node leaves the forest alone and its children are processed with the
  current target.
\<close>

fun processNode :: "node \<Rightarrow> saltComponent list \<Rightarrow> path \<Rightarrow> saltComponent list"
  and forEachChild :: "node list \<Rightarrow> saltComponent list \<Rightarrow> path \<Rightarrow> saltComponent list" where
  "processNode (Node n kids) components target =
     (case createSaltComponent n of
        Some saltComponent \<Rightarrow>
          forEachChild kids (pushAt target [saltComponent] components)
            (target @ [lengthAt target components])
      | None \<Rightarrow> forEachChild kids components target)"
| "forEachChild [] components target = components"
| "forEachChild (k # ks) components target =
     forEachChild ks (processNode k components target) target"

text \<open>
  \<open>mapToSaltComponents(figmaData)\<close>, given \<open>figmaData.structure\<close>: the walk starts with
  an empty \<open>components\<close> array and no parent.
\<close>

definition mapToSaltComponents :: "node \<Rightarrow> saltComponent list" where
  "mapToSaltComponents figmaStructure = processNode figmaStructure [] []"

text \<open>
  The declarative reading of the walk, in the words of the specification: a classified
  node becomes one output node holding the mapped forests of its children; an
  unclassified node becomes nothing, and the mapped forests of its children take its
  place. The walk above is compared with it below.
\<close>

fun mappedForest :: "node \<Rightarrow> saltComponent list" where
  "mappedForest (Node n kids) =
     (case createSaltComponent n of
        Some c \<Rightarrow>
          [SaltComponent (c_type c) (c_import c) (c_props c)
             (concat (map mappedForest kids)) (c_content c)]
      | None \<Rightarrow> concat (map mappedForest kids))"

text \<open>Counting: the design nodes the classifier maps, and the nodes of an output tree.\<close>

fun classifiedCount :: "node \<Rightarrow> nat" where
  "classifiedCount (Node n kids) =
     (if detectComponentType n = None then 0 else 1) + sum_list (map classifiedCount kids)"

fun componentCount :: "saltComponent \<Rightarrow> nat" where
  "componentCount (SaltComponent ty imp ps kids content) =
     1 + sum_list (map componentCount kids)"

text \<open>Every node of an output tree, in pre-order.\<close>

fun allComponents :: "saltComponent \<Rightarrow> saltComponent list" where
  "allComponents (SaltComponent ty imp ps kids content) =
     SaltComponent ty imp ps kids content # concat (map allComponents kids)"

text \<open>A node of a given kind with every optional field absent, to write inputs with.\<close>

definition bare :: "string \<Rightarrow> attrs" where
  "bare ty =
     \<lparr>n_name = None, n_type = ty, n_text = None, n_visible = None, n_fills = None,
      n_cornerRadius = None, n_layout = None, n_padding = None, n_height = None,
      n_style = None, n_layoutMode = None, n_itemSpacing = None,
      n_primaryAxisAlignItems = None, n_backgroundColor = None\<rparr>"

section \<open>The context renderer of salt-component-mapper.ts\<close>

text \<open>\<open>s.split(sep)\<close> for a one-character separator, given as a predicate.\<close>

primrec splitOn :: "(char \<Rightarrow> bool) \<Rightarrow> string \<Rightarrow> string list" where
  "splitOn sep [] = [[]]"
| "splitOn sep (c # cs) =
     (if sep c then [] # splitOn sep cs
      else (case splitOn sep cs of w # ws \<Rightarrow> (c # w) # ws | [] \<Rightarrow> [[c]]))"

text \<open>\<open>xs.join(sep)\<close>.\<close>

fun join :: "string \<Rightarrow> string list \<Rightarrow> string" where
  "join sep [] = []"
| "join sep [x] = x"
| "join sep (x # y # ys) = x @ sep @ join sep (y # ys)"

text \<open>\<open>set.add(x)\<close> on a \<open>Set\<close>, which iterates in insertion order.\<close>

definition setAdd :: "string list \<Rightarrow> string \<Rightarrow> string list" where
  "setAdd xs x = (if x \<in> set xs then xs else xs @ [x])"

text \<open>
  \<open>imp.split('/').pop()\<close>: the last segment of the path. \<open>split\<close> never returns an empty
  array; were it empty, \<open>pop\<close> would give \<open>undefined\<close>, printed as such by the template.
\<close>

definition lastSegment :: "string \<Rightarrow> string" where
  "lastSegment imp =
     (case rev (splitOn (\<lambda>c. c = CHR ''/'') imp) of x # _ \<Rightarrow> x | [] \<Rightarrow> ''undefined'')"

definition importLine :: "string \<Rightarrow> string" where
  "importLine imp =
     ''import { '' @ lastSegment imp @ '' } from '' @ [CHR 0x27] @ imp @ [CHR 0x27] @ '';''"

text \<open>
  The template prints a prop value with \<open>${value}\<close>. How JavaScript prints a number
  or an inherited member is not modelled: it is left to the parameter \<open>printValue\<close>.
\<close>

definition valueToString :: "(pval \<Rightarrow> string) \<Rightarrow> pval \<Rightarrow> string" where
  "valueToString printValue v =
     (case v of PStr s \<Rightarrow> s | PBool b \<Rightarrow> (if b then ''true'' else ''false'')
      | _ \<Rightarrow> printValue v)"

text \<open>
  \<open>buildComponentTree(components, tree, imports, level)\<close>: the two accumulators
  \<open>tree\<close> and \<open>imports\<close> are passed and returned as a pair.
\<close>

fun buildComponent ::
    "(pval \<Rightarrow> string) \<Rightarrow> saltComponent \<Rightarrow> string list \<times> string list \<Rightarrow> nat
       \<Rightarrow> string list \<times> string list"
  and buildComponentTree ::
    "(pval \<Rightarrow> string) \<Rightarrow> saltComponent list \<Rightarrow> string list \<times> string list \<Rightarrow> nat
       \<Rightarrow> string list \<times> string list" where
  "buildComponent printValue (SaltComponent ty imp ps kids content) acc level =
     (let imports1 = setAdd (snd acc) imp;
          indent = concat (replicate level ''  '');
          propsStr = join '' '' (map (\<lambda>kv. fst kv @ ''='' @ [CHR 0x22]
                                        @ valueToString printValue (snd kv) @ [CHR 0x22]) ps);
          tree1 = fst acc @ [indent @ ''<'' @ ty @ '' '' @ propsStr @ ''>''];
          tree2 = (case content of
                     Some txt \<Rightarrow> if txt \<noteq> [] then tree1 @ [indent @ ''  '' @ txt] else tree1
                   | None \<Rightarrow> tree1);
          acc3 = (if kids \<noteq> []
                  then buildComponentTree printValue kids (tree2, imports1) (level + 1)
                  else (tree2, imports1))
      in (fst acc3 @ [indent @ ''</'' @ ty @ ''>''], snd acc3))"
| "buildComponentTree printValue [] acc level = acc"
| "buildComponentTree printValue (c # cs) acc level =
     buildComponentTree printValue cs (buildComponent printValue c acc level) level"

text \<open>The lines under "Imports needed:", one per element of the \<open>imports\<close> set.\<close>

definition importSection :: "(pval \<Rightarrow> string) \<Rightarrow> saltComponent list \<Rightarrow> string list" where
  "importSection printValue components =
     map importLine (snd (buildComponentTree printValue components ([], []) 0))"

definition generateComponentContext :: "(pval \<Rightarrow> string) \<Rightarrow> saltComponent list \<Rightarrow> string" where
  "generateComponentContext printValue components =
     [CHR 0x0A] @ ''Salt Design System Component Structure:'' @ [CHR 0x0A, CHR 0x0A]
     @ ''Imports needed:'' @ [CHR 0x0A]
     @ join [CHR 0x0A] (importSection printValue components) @ [CHR 0x0A, CHR 0x0A]
     @ ''Component hierarchy:'' @ [CHR 0x0A]
     @ join [CHR 0x0A] (fst (buildComponentTree printValue components ([], []) 0))
     @ [CHR 0x0A, CHR 0x0A]
     @ ''Additional context:'' @ [CHR 0x0A]
     @ ''- Use Salt'' @ [CHR 0x27] @ ''s design tokens for consistent styling'' @ [CHR 0x0A]
     @ ''- Wrap everything in SaltProvider'' @ [CHR 0x0A]
     @ ''- Use proper spacing props (1-6 scale)'' @ [CHR 0x0A]
     @ ''- Follow Salt'' @ [CHR 0x27] @ ''s accessibility guidelines'' @ [CHR 0x0A]"

text \<open>
  The specification's reading of the displayed symbol, for comparison: the first
  path segment after the package scope (the segment that starts with \<open>@\<close>).
\<close>

definition firstSegmentAfterScope :: "string \<Rightarrow> string option" where
  "firstSegmentAfterScope imp =
     (case splitOn (\<lambda>c. c = CHR ''/'') imp of
        scope # seg # _ \<Rightarrow> if prefix ''@'' scope then Some seg else None
      | _ \<Rightarrow> None)"

text \<open>Every import path of a forest of output nodes.\<close>

definition importsOf :: "saltComponent list \<Rightarrow> string set" where
  "importsOf components = c_import ` set (concat (map allComponents components))"

section \<open>The mapper variant of the implementation guide (salt-mapper.ts)\<close>

text \<open>
  The guide's rewrite of the mapper keys its catalog in lower case and reads the name
  with \<open>node.name.toLowerCase()\<close>, which throws a TypeError on a node without a name.
\<close>

datatype error = TypeError

definition detectVariant :: "attrs \<Rightarrow> error + string" where
  "detectVariant n =
     (case n_name n of
        None \<Rightarrow> Inl TypeError
      | Some nm \<Rightarrow>
          (let name = toLowerCase nm in
           Inr (if str_includes name ''primary'' then ''primary''
                else if str_includes name ''secondary'' then ''secondary''
                else if str_includes name ''ghost'' then ''ghost''
                else if n_backgroundColor n \<noteq> None then ''primary''
                else ''secondary'')))"

definition detectSize_guide :: "attrs \<Rightarrow> string" where
  "detectSize_guide n =
     (let height = (case n_height n of Some h \<Rightarrow> if h \<noteq> 0 then h else 40 | None \<Rightarrow> 40) in
      if height < 32 then ''small'' else if height > 48 then ''large'' else ''medium'')"

definition mapSpacing_guide :: "real \<Rightarrow> real" where
  "mapSpacing_guide spacing =
     (if spacing \<le> 4 then 1
      else if spacing \<le> 8 then 2
      else if spacing \<le> 16 then 3
      else if spacing \<le> 24 then 4
      else if spacing \<le> 32 then 5
      else 6)"

definition mapAlignment_guide :: "string option \<Rightarrow> pval" where
  "mapAlignment_guide align =
     tableOrStart [(''MIN'', ''start''), (''CENTER'', ''center''), (''MAX'', ''end'')] align"

definition mapTextStyle :: "style \<Rightarrow> string" where
  "mapTextStyle st =
     (let size = (case s_fontSize st of Some x \<Rightarrow> if x \<noteq> 0 then x else 14 | None \<Rightarrow> 14) in
      if size \<ge> 32 then ''h1''
      else if size \<ge> 24 then ''h2''
      else if size \<ge> 20 then ''h3''
      else if size \<ge> 18 then ''h4''
      else ''body'')"

definition extractPlaceholder :: "attrs \<Rightarrow> node list \<Rightarrow> error + string" where
  "extractPlaceholder n kids =
     (case n_name n of
        None \<Rightarrow> Inl TypeError
      | Some nm \<Rightarrow>
          (let name = toLowerCase nm in
           Inr (if str_includes name ''email'' then ''Enter email address''
                else if str_includes name ''password'' then ''Enter password''
                else if str_includes name ''search'' then ''Search...''
                else if str_includes name ''name'' then ''Enter your name''
                else (case List.find (\<lambda>c. n_type (attrs c) = ''TEXT'') kids of
                        Some textChild \<Rightarrow>
                          (case n_text (attrs textChild) of
                             Some t \<Rightarrow> if t \<noteq> [] then t else ''Enter text...''
                           | None \<Rightarrow> ''Enter text...'')
                      | None \<Rightarrow> ''Enter text...''))))"

definition extractProps_guide :: "attrs \<Rightarrow> node list \<Rightarrow> string \<Rightarrow> error + props" where
  "extractProps_guide n kids componentType =
     (let p0 = (if n_visible n = Some False then AList.update ''hidden'' (PBool True) [] else [])
      in
      if componentType = ''button'' then
        (case detectVariant n of
           Inl e \<Rightarrow> Inl e
         | Inr variant \<Rightarrow>
             Inr (AList.update ''size'' (PStr (detectSize_guide n))
                    (AList.update ''variant'' (PStr variant) p0)))
      else if componentType = ''input'' then
        (case extractPlaceholder n kids of
           Inl e \<Rightarrow> Inl e
         | Inr placeholder \<Rightarrow> Inr (AList.update ''placeholder'' (PStr placeholder) p0))
      else if componentType = ''stack'' \<or> componentType = ''flex'' then
        (if truthy_str (n_layoutMode n) then
           Inr (AList.update ''align'' (mapAlignment_guide (n_primaryAxisAlignItems n))
                  (AList.update ''gap''
                     (PNum (mapSpacing_guide
                              (case n_itemSpacing n of Some x \<Rightarrow> x | None \<Rightarrow> 0))) p0))
         else Inr p0)
      else if componentType = ''text'' then
        (case n_style n of
           None \<Rightarrow> Inr p0
         | Some st \<Rightarrow>
             (let q1 = AList.update ''styleAs'' (PStr (mapTextStyle st)) p0 in
              Inr (case s_textAlign st of
                     Some a \<Rightarrow> if a \<noteq> [] then AList.update ''align'' (PStr (toLowerCase a)) q1
                               else q1
                   | None \<Rightarrow> q1)))
      else if componentType = ''card'' then
        Inr (AList.update ''variant''
               (PStr (if n_backgroundColor n \<noteq> None then ''primary'' else ''secondary'')) p0)
      else Inr p0)"

text \<open>
  \<open>generateImports\<close> of the guide's mapper. \<open>imports\<close> is a \<open>Map\<close> from a module to the
  \<open>Set\<close> of type names imported from it; both iterate in insertion order.
  \<open>recordImport\<close> is the body of the \<open>forEach\<close> in \<open>collectImports\<close> up to the recursive
  call.
\<close>

definition recordImport ::
    "(string \<times> string list) list \<Rightarrow> saltComponent \<Rightarrow> (string \<times> string list) list" where
  "recordImport imports c =
     (case map_of imports (c_import c) of
        None \<Rightarrow> imports @ [(c_import c, [c_type c])]
      | Some names \<Rightarrow> AList.update (c_import c) (setAdd names (c_type c)) imports)"

fun collectImport ::
    "saltComponent \<Rightarrow> (string \<times> string list) list \<Rightarrow> (string \<times> string list) list"
  and collectImports ::
    "saltComponent list \<Rightarrow> (string \<times> string list) list \<Rightarrow> (string \<times> string list) list" where
  "collectImport (SaltComponent ty imp ps kids content) imports =
     collectImports kids (recordImport imports (SaltComponent ty imp ps kids content))"
| "collectImports [] imports = imports"
| "collectImports (c # cs) imports = collectImports cs (collectImport c imports)"

definition generateImports :: "saltComponent list \<Rightarrow> string list" where
  "generateImports components =
     map (\<lambda>entry. ''import { '' @ join '', '' (snd entry) @ '' } from '' @ [CHR 0x27]
                   @ fst entry @ [CHR 0x27] @ '';'')
       (collectImports components [])"

text \<open>
  What the grouping maintains, for the nodes \<open>seen\<close> so far: one entry per module of
  a seen node, holding each type name imported from that module once.
\<close>

definition grouped :: "(string \<times> string list) list \<Rightarrow> saltComponent list \<Rightarrow> bool" where
  "grouped imports seen \<longleftrightarrow>
     distinct (map fst imports)
     \<and> set (map fst imports) = c_import ` set seen
     \<and> (\<forall>entry \<in> set imports.
           distinct (snd entry)
           \<and> set (snd entry) = {c_type c | c. c \<in> set seen \<and> c_import c = fst entry})"

section \<open>The example fetcher of llm-code-generator.ts\<close>

text \<open>
  What the Q&A endpoint does with one POST: the request fails (network error, error
  status, malformed body), or it answers with an \<open>answer\<close> field that may be absent.
  The endpoint is a parameter: a function from the component type asked about to the
  outcome of that request.
\<close>

datatype reply = Failed | Answered "string option"

text \<open>
  \<open>fetchExampleFromQnA\<close> catches every error itself and returns \<open>null\<close> for it;
  \<open>answer || null\<close> turns an absent or empty answer into \<open>null\<close> as well. The result is
  a sum so that the caller's own \<open>catch\<close> branch is a branch of the model.
\<close>

definition fetchExampleFromQnA :: "(string \<Rightarrow> reply) \<Rightarrow> string \<Rightarrow> error + string option" where
  "fetchExampleFromQnA endpoint componentType =
     (case endpoint componentType of
        Failed \<Rightarrow> Inr None
      | Answered None \<Rightarrow> Inr None
      | Answered (Some a) \<Rightarrow> if a \<noteq> [] then Inr (Some a) else Inr None)"

text \<open>
  The state of one \<open>fetchRelevantExamples\<close> call: the \<open>examples\<close> array being built and
  the generator's \<open>exampleCache\<close>, together with what the call does to the outside: the
  component types it sent a request for, and the warnings it printed.
\<close>

record fetchState =
  examples :: "string list"
  exampleCache :: "string \<rightharpoonup> string"
  requests :: "string list"
  warnings :: "string list"

text \<open>One iteration of \<open>for (const type of componentTypes)\<close>.\<close>

definition fetchStep :: "(string \<Rightarrow> reply) \<Rightarrow> fetchState \<Rightarrow> string \<Rightarrow> fetchState" where
  "fetchStep endpoint st ty =
     (case exampleCache st ty of
        Some cached \<Rightarrow> st\<lparr>examples := examples st @ [cached]\<rparr>
      | None \<Rightarrow>
          (let st1 = st\<lparr>requests := requests st @ [ty]\<rparr> in
           case fetchExampleFromQnA endpoint ty of
             Inr (Some example) \<Rightarrow>
               st1\<lparr>exampleCache := (exampleCache st1)(ty \<mapsto> example),
                    examples := examples st1 @ [example]\<rparr>
           | Inr None \<Rightarrow> st1
           | Inl e \<Rightarrow>
               st1\<lparr>warnings := warnings st1 @ [''Failed to fetch example for '' @ ty @ '':'']\<rparr>))"

text \<open>
  \<open>new Set(components.map(c => c.type))\<close>: the types of the root-level components, each
  once, in order of first appearance.
\<close>

definition componentTypes :: "saltComponent list \<Rightarrow> string list" where
  "componentTypes components = foldl setAdd [] (map c_type components)"

text \<open>
  \<open>fetchRelevantExamples(components)\<close> on a generator whose cache is \<open>cache\<close>. The
  iterations run one after the other (each \<open>await\<close> finishes before the next starts).
\<close>

definition fetchRelevantExamples ::
    "(string \<Rightarrow> reply) \<Rightarrow> saltComponent list \<Rightarrow> (string \<rightharpoonup> string) \<Rightarrow> fetchState" where
  "fetchRelevantExamples endpoint components cache =
     foldl (fetchStep endpoint)
       \<lparr>examples = [], exampleCache = cache, requests = [], warnings = []\<rparr>
       (componentTypes components)"

section \<open>The validator of llm-code-generator.ts\<close>

record validation =
  valid :: bool
  errors :: "string list"
  suggestions :: "string list"

definition saltComponents :: "string list" where
  "saltComponents = [''Button'', ''Input'', ''Card'', ''Stack'', ''Flex'']"

text \<open>
  The text \<open>validateReactCode\<close> looks for in its import check. The source passes the
  template string to \<open>includes\<close>, so it is this literal text, not a pattern.
\<close>

definition importPattern :: "string \<Rightarrow> string" where
  "importPattern cname = ''import.*'' @ cname @ ''.*from.*@salt-ds''"

text \<open>
  \<open>validateReactCode(code)\<close>. The argument is \<open>None\<close> when the value passed is not a
  string: the first \<open>code.includes\<close> then throws, and the \<open>catch\<close> branch answers with
  the engine's message (the parameter \<open>message\<close>). On a string nothing in the \<open>try\<close>
  block throws.
\<close>

definition validateReactCode :: "string \<Rightarrow> string option \<Rightarrow> validation" where
  "validateReactCode message arg =
     (case arg of
        None \<Rightarrow>
          \<lparr>valid = False, errors = [''Code validation failed: '' @ message], suggestions = []\<rparr>
      | Some code \<Rightarrow>
          (let errors1 = (if \<not> str_includes code ''@salt-ds/core''
                          then [''Missing Salt Design System imports''] else []);
               hasExport = (str_includes code ''export default'' \<or> str_includes code ''export {'');
               errors2 = (if \<not> hasExport then errors1 @ [''Component must be exported'']
                          else errors1);
               suggestions1 = (if str_includes code ''className='' \<and> \<not> str_includes code ''styles.''
                 then [''Consider using CSS modules or styled-components for styling''] else []);
               suggestions2 = (if \<not> str_includes code ''key='' \<and> str_includes code ''.map(''
                 then suggestions1 @ [''Add key props to mapped elements''] else suggestions1);
               errors3 = foldl (\<lambda>errs cname.
                            if str_includes code (''<'' @ cname)
                               \<and> \<not> str_includes code (importPattern cname)
                            then errs @ [cname @ '' component used but not imported from Salt'']
                            else errs) errors2 saltComponents
           in \<lparr>valid = (length errors3 = 0), errors = errors3, suggestions = suggestions2\<rparr>))"

text \<open>
  The check the import test appears to intend: the pattern read as a regular
  expression, \<open>import.*cname.*from.*@salt-ds\<close>, matches somewhere in the code. A dot
  does not match a line terminator, so a match lies within one line and consists of the
  four pieces in this order. \<open>afterFirst p s\<close> is what follows the first occurrence of
  \<open>p\<close> in \<open>s\<close>.
\<close>

primrec afterFirst :: "string \<Rightarrow> string \<Rightarrow> string option" where
  "afterFirst p [] = (if p = [] then Some [] else None)"
| "afterFirst p (c # cs) =
     (if prefix p (c # cs) then Some (drop (length p) (c # cs)) else afterFirst p cs)"

fun inOrder :: "string list \<Rightarrow> string \<Rightarrow> bool" where
  "inOrder [] s = True"
| "inOrder (p # ps) s = (case afterFirst p s of None \<Rightarrow> False | Some rest \<Rightarrow> inOrder ps rest)"

definition importMentions :: "string \<Rightarrow> string \<Rightarrow> bool" where
  "importMentions cname code =
     list_ex (inOrder [''import'', cname, ''from'', ''@salt-ds''])
       (splitOn (\<lambda>c. c = CHR 0x0A \<or> c = CHR 0x0D) code)"

section \<open>Inputs of the scenarios\<close>

text \<open>
  The end-to-end scenario with the fields as this mapper reads them: a node of kind
  \<open>'FRAME'\<close> whose \<open>layout.mode\<close> is \<open>'VERTICAL'\<close>, holding a text node with the text
  "Hello" and a rectangle named "Submit Button"; no other field is present.
\<close>

definition scenario :: node where
  "scenario =
     Node ((bare ''FRAME'')\<lparr>n_layout := Some \<lparr>l_mode = Some ''VERTICAL'', l_gap = None,
                                                 l_align = None, l_justify = None\<rparr>\<rparr>)
       [Node ((bare ''TEXT'')\<lparr>n_text := Some ''Hello''\<rparr>) [],
        Node ((bare ''RECTANGLE'')\<lparr>n_name := Some ''Submit Button''\<rparr>) []]"

text \<open>
  The end-to-end scenario as the specification writes it, with the kind \<open>frame\<close> in
  lower case and the layout mode in a field \<open>layoutMode\<close>; and the same tree with the
  kind spelled \<open>'FRAME'\<close>.
\<close>

definition scenarioAsWritten :: node where
  "scenarioAsWritten =
     Node ((bare ''frame'')\<lparr>n_layoutMode := Some ''VERTICAL''\<rparr>)
       [Node ((bare ''TEXT'')\<lparr>n_text := Some ''Hello''\<rparr>) [],
        Node ((bare ''RECTANGLE'')\<lparr>n_name := Some ''Submit Button''\<rparr>) []]"

definition scenarioLayoutMode :: node where
  "scenarioLayoutMode =
     Node ((bare ''FRAME'')\<lparr>n_layoutMode := Some ''VERTICAL''\<rparr>)
       [Node ((bare ''TEXT'')\<lparr>n_text := Some ''Hello''\<rparr>) [],
        Node ((bare ''RECTANGLE'')\<lparr>n_name := Some ''Submit Button''\<rparr>) []]"

text \<open>
  The flattening scenario: a vertical frame whose only child is a node of kind GROUP,
  which holds one text node.
\<close>

definition wrapped :: node where
  "wrapped =
     Node ((bare ''FRAME'')\<lparr>n_layout := Some \<lparr>l_mode = Some ''VERTICAL'', l_gap = None,
                                                 l_align = None, l_justify = None\<rparr>\<rparr>)
       [Node (bare ''GROUP'')
          [Node ((bare ''TEXT'')\<lparr>n_text := Some ''Hi''\<rparr>) []]]"

text \<open>
  Inputs for the prop extractor: an input field, a heading with a style descriptor, and
  a caption without one.
\<close>

definition emailInput :: attrs where
  "emailInput = (bare ''RECTANGLE'')\<lparr>n_name := Some ''Email Input''\<rparr>"

definition titleText :: attrs where
  "titleText =
     (bare ''TEXT'')\<lparr>n_name := Some ''Title'', n_text := Some ''Title'',
                      n_style := Some \<lparr>s_fontSize = Some 32, s_fontWeight = None,
                                        s_textAlign = Some ''CENTER''\<rparr>\<rparr>"

definition captionText :: attrs where
  "captionText = (bare ''TEXT'')\<lparr>n_name := Some ''Caption'', n_text := Some ''Caption''\<rparr>"

text \<open>
  An output forest as the guide's mapper builds it, where every node is imported from
  the package itself.
\<close>

definition guideComponents :: "saltComponent list" where
  "guideComponents =
     [SaltComponent ''StackLayout'' ''@salt-ds/core'' [] 
        [SaltComponent ''Text'' ''@salt-ds/core'' [] [] (Some ''Hello''),
         SaltComponent ''Button'' ''@salt-ds/core'' [] [] None,
         SaltComponent ''Text'' ''@salt-ds/core'' [] [] (Some ''Bye'')] None]"

text \<open>
  Inputs for the example fetcher: two root-level components, an endpoint whose Button
  request fails, and one that answers every request.
\<close>

definition twoComponents :: "saltComponent list" where
  "twoComponents =
     [SaltComponent ''Button'' ''@salt-ds/core/Button'' [] [] None,
      SaltComponent ''Text'' ''@salt-ds/core/Text'' [] [] (Some ''Hello'')]"

definition buttonFails :: "string \<Rightarrow> reply" where
  "buttonFails ty = (if ty = ''Button'' then Failed else Answered (Some ''a text example''))"

definition allAnswered :: "string \<Rightarrow> reply" where
  "allAnswered ty = Answered (Some ''a later example'')"

text \<open>Inputs for the validator.\<close>

definition buttonWithoutImport :: string where
  "buttonWithoutImport = ''export default () => <Button/>''"

definition plainExport :: string where
  "plainExport =
     ''import {A} from '' @ [CHR 0x27] @ ''@salt-ds/core'' @ [CHR 0x27] @ '';''
     @ [CHR 0x0A] @ ''export default A''"

text \<open>
  A component that imports Button from \<open>@salt-ds/core\<close>, uses it, and is exported:
  \<open>import { Button } from '@salt-ds/core';\<close> on the first line and
  \<open>export default () => <Button/>\<close> on the second.
\<close>

definition importedButton :: string where
  "importedButton =
     ''import { Button } from '' @ [CHR 0x27] @ ''@salt-ds/core'' @ [CHR 0x27] @ '';''
     @ [CHR 0x0A] @ ''export default () => <Button/>''"

section \<open>Facts about strings and the catalog\<close>

lemma toLowerCase_Nil_iff: "toLowerCase s = [] \<longleftrightarrow> s = []"
  by (simp add: toLowerCase_def)

lemma catalog_keys:
  "map fst componentMap =
     [''Button'', ''Input'', ''Card'', ''Text'', ''Stack'', ''Grid'', ''Flex'', ''Dropdown'',
      ''Checkbox'', ''Radio'', ''Switch'', ''Dialog'', ''Tabs'', ''Avatar'', ''Badge'', ''Tooltip'']"
  by (simp add: componentMap_def)

lemma catalog_keys_nonempty: "k \<in> set (map fst componentMap) \<Longrightarrow> k \<noteq> []"
  unfolding catalog_keys by auto

lemma find_Some_member: "List.find P xs = Some x \<Longrightarrow> x \<in> set xs \<and> P x"
  by (induction xs) (auto split: if_splits)

section \<open>The end-to-end scenario\<close>

text \<open>
  Claim C1, as stated, fails. The mapper matches the kind \<open>'FRAME'\<close> exactly and reads
  the layout mode from \<open>node.layout.mode\<close> only. On the tree as the claim writes it the
  frame is not mapped at all, and the Text node and the Button node are two roots; with
  the kind spelled \<open>'FRAME'\<close> the field \<open>layoutMode\<close> is still not read, and the root is a
  Box. In neither case is there a Stack.
\<close>

theorem scenario_as_written_counterexample:
  "mapToSaltComponents scenarioAsWritten =
     [SaltComponent ''Text'' ''@salt-ds/core/Text'' [] [] (Some ''Hello''),
      SaltComponent ''Button'' ''@salt-ds/core/Button''
        [(''variant'', PStr ''primary''), (''size'', PStr ''medium'')] [] None]
   \<and> mapToSaltComponents scenarioLayoutMode =
     [SaltComponent ''Box'' ''Box'' []
        [SaltComponent ''Text'' ''@salt-ds/core/Text'' [] [] (Some ''Hello''),
         SaltComponent ''Button'' ''@salt-ds/core/Button''
           [(''variant'', PStr ''primary''), (''size'', PStr ''medium'')] [] None]
        None]"
  by code_simp

text \<open>
  Claim C1, amended. Mapping the tree whose root has the kind \<open>'FRAME'\<close> and the layout
  descriptor \<open>layout.mode = 'VERTICAL'\<close>, and whose children are the text node "Hello" and
  the rectangle named "Submit Button", gives exactly one root, of type Stack, with
  exactly two children in order: a Text node with content "Hello", and a Button node
  whose props are variant = "primary" and size = "medium".
\<close>

theorem scenario_maps_to_stack_of_text_and_button:
  "mapToSaltComponents scenario =
     [SaltComponent ''Stack'' ''@salt-ds/core/StackLayout''
        [(''gap'', PNum 6), (''align'', PStr ''start'')]
        [SaltComponent ''Text'' ''@salt-ds/core/Text'' [] [] (Some ''Hello''),
         SaltComponent ''Button'' ''@salt-ds/core/Button''
           [(''variant'', PStr ''primary''), (''size'', PStr ''medium'')] [] None]
        None]"
  by code_simp

section \<open>The classifier\<close>

lemma detect_by_name:
  assumes "n_name n = Some nm" and "firstCatalogHit nm = Some k"
  shows "detectComponentType n = Some k"
proof -
  from assms(2) have k: "k \<in> set (map fst componentMap)"
      and inc: "str_includes (toLowerCase nm) (toLowerCase k)"
    unfolding firstCatalogHit_def by (auto dest: find_Some_member)
  have "nm \<noteq> []"
  proof
    assume "nm = []"
    with inc have "toLowerCase k = []" by (simp add: toLowerCase_def)
    with k show False using catalog_keys_nonempty by (simp add: toLowerCase_Nil_iff)
  qed
  with assms show ?thesis by (simp add: detectComponentType_def)
qed

lemma hit_Card_Text: "firstCatalogHit ''Card Text'' = Some ''Card''"
  by code_simp

lemma hit_Text_Button: "firstCatalogHit ''Text Button'' = Some ''Button''"
  by code_simp

text \<open>
  Claim C10. The catalog is declared in the order Button, Input, Card, Text, Stack,
  Grid, Flex, Dropdown, Checkbox, Radio, Switch, Dialog, Tabs, Avatar, Badge, Tooltip.
  For a node whose name contains, case-insensitively, the name of at least one catalog
  component (so in particular of two or more), the classifier returns the catalog name
  at the least position whose lower-cased form occurs in the lower-cased node name. A
  node named "Card Text" classifies as Card, a node named "Text Button" as Button.
\<close>

theorem classifier_returns_earliest_catalog_name:
  "map fst componentMap =
     [''Button'', ''Input'', ''Card'', ''Text'', ''Stack'', ''Grid'', ''Flex'', ''Dropdown'',
      ''Checkbox'', ''Radio'', ''Switch'', ''Dialog'', ''Tabs'', ''Avatar'', ''Badge'', ''Tooltip'']
   \<and> (n_name n = Some nm \<and> k \<in> set (map fst componentMap)
        \<and> str_includes (toLowerCase nm) (toLowerCase k)
      \<longrightarrow> (\<exists>i < length (map fst componentMap).
            detectComponentType n = Some (map fst componentMap ! i)
            \<and> str_includes (toLowerCase nm) (toLowerCase (map fst componentMap ! i))
            \<and> (\<forall>j < i. \<not> str_includes (toLowerCase nm) (toLowerCase (map fst componentMap ! j)))))
   \<and> (n_name n = Some ''Card Text'' \<longrightarrow> detectComponentType n = Some ''Card'')
   \<and> (n_name n = Some ''Text Button'' \<longrightarrow> detectComponentType n = Some ''Button'')"
proof (intro conjI impI)
  show "map fst componentMap =
     [''Button'', ''Input'', ''Card'', ''Text'', ''Stack'', ''Grid'', ''Flex'', ''Dropdown'',
      ''Checkbox'', ''Radio'', ''Switch'', ''Dialog'', ''Tabs'', ''Avatar'', ''Badge'', ''Tooltip'']"
    by (rule catalog_keys)
next
  let ?keys = "map fst componentMap"
  let ?P = "\<lambda>figmaName. str_includes (toLowerCase nm) (toLowerCase figmaName)"
  assume h: "n_name n = Some nm \<and> k \<in> set ?keys \<and> str_includes (toLowerCase nm) (toLowerCase k)"
  then have "List.find ?P ?keys \<noteq> None"
    by (auto simp: find_None_iff)
  then obtain x where x: "List.find ?P ?keys = Some x" by auto
  then obtain i where i: "i < length ?keys" "?P (?keys ! i)" "x = ?keys ! i"
      "\<forall>j<i. \<not> ?P (?keys ! j)"
    unfolding find_Some_iff by blast
  from x have "firstCatalogHit nm = Some x" by (simp add: firstCatalogHit_def)
  with h have "detectComponentType n = Some x" by (simp add: detect_by_name)
  with i show "\<exists>i < length ?keys.
            detectComponentType n = Some (?keys ! i)
            \<and> str_includes (toLowerCase nm) (toLowerCase (?keys ! i))
            \<and> (\<forall>j < i. \<not> str_includes (toLowerCase nm) (toLowerCase (?keys ! j)))"
    by blast
next
  assume "n_name n = Some ''Card Text''"
  then show "detectComponentType n = Some ''Card''"
    by (rule detect_by_name) (rule hit_Card_Text)
next
  assume "n_name n = Some ''Text Button''"
  then show "detectComponentType n = Some ''Button''"
    by (rule detect_by_name) (rule hit_Text_Button)
qed

text \<open>
  The hypotheses of C10 hold for a rectangle named "Card Text", which contains both
  "card" and "text".
\<close>

theorem classifier_earliest_witness:
  "detectComponentType ((bare ''RECTANGLE'')\<lparr>n_name := Some ''Card Text''\<rparr>) = Some ''Card''
   \<and> detectComponentType ((bare ''FRAME'')\<lparr>n_name := Some ''Text Button''\<rparr>) = Some ''Button''
   \<and> str_includes (toLowerCase ''Card Text'') (toLowerCase ''Card'')
   \<and> str_includes (toLowerCase ''Card Text'') (toLowerCase ''Text'')
   \<and> (\<exists>i < length (map fst componentMap).
        detectComponentType ((bare ''RECTANGLE'')\<lparr>n_name := Some ''Card Text''\<rparr>)
          = Some (map fst componentMap ! i)
        \<and> (\<forall>j < i. \<not> str_includes (toLowerCase ''Card Text'')
                        (toLowerCase (map fst componentMap ! j))))"
proof -
  let ?n = "(bare ''RECTANGLE'')\<lparr>n_name := Some ''Card Text''\<rparr>"
  let ?m = "(bare ''FRAME'')\<lparr>n_name := Some ''Text Button''\<rparr>"
  have a: "n_name ?n = Some ''Card Text''" by simp
  have b: "n_name ?m = Some ''Text Button''" by simp
  have c: "''Text'' \<in> set (map fst componentMap)" by (simp add: catalog_keys)
  have d: "str_includes (toLowerCase ''Card Text'') (toLowerCase ''Text'')" by code_simp
  have e: "str_includes (toLowerCase ''Card Text'') (toLowerCase ''Card'')" by code_simp
  from classifier_returns_earliest_catalog_name [of ?n "''Card Text''" "''Text''"]
       classifier_returns_earliest_catalog_name [of ?m "''Text Button''" "''Text''"]
       a b c d e
  show ?thesis by blast
qed

lemma matchComponentName_range:
  "matchComponentName name = Some t \<Longrightarrow> t \<in> set (map fst componentMap)"
  unfolding matchComponentName_def
  by (auto simp: Let_def catalog_keys split: option.splits if_splits dest!: find_Some_member)

lemma detectComponentType_range:
  assumes "detectComponentType n = Some t"
  shows "t \<in> set (map fst componentMap) \<or> t = ''Box''"
proof (cases "case n_name n of None \<Rightarrow> None
            | Some x \<Rightarrow> if x \<noteq> [] then firstCatalogHit x else None")
  case (Some k)
  then have "k \<in> set (map fst componentMap)"
    by (auto simp: firstCatalogHit_def split: option.splits if_splits dest: find_Some_member)
  moreover from Some assms have "t = k" by (simp add: detectComponentType_def)
  ultimately show ?thesis by simp
next
  case None
  with assms show ?thesis
    by (auto simp: detectComponentType_def catalog_keys split: if_splits
             dest: matchComponentName_range)
qed

section \<open>The tree walk\<close>

lemma createSaltComponent_Some:
  assumes "createSaltComponent n = Some c"
  shows "detectComponentType n = Some (c_type c)" and "c_children c = []"
    and "c_import c = (case map_of componentMap (c_type c) of Some imp \<Rightarrow> imp | None \<Rightarrow> c_type c)"
    and "c_props c = extractProps n (c_type c)"
  using assms by (auto simp: createSaltComponent_def split: option.splits)

lemma createSaltComponent_None: "createSaltComponent n = None \<longleftrightarrow> detectComponentType n = None"
  by (simp add: createSaltComponent_def split: option.splits)

lemma pushAt_pushAt:
  "pushAt t ys (pushAt t xs forest) = pushAt t (xs @ ys) forest"
  by (induction t arbitrary: forest) auto

lemma arrayAt_pushAt:
  "arrayAt t forest = Some arr \<Longrightarrow> arrayAt t (pushAt t xs forest) = Some (arr @ xs)"
  by (induction t arbitrary: forest) (auto split: if_splits)

lemma pushAt_into_pushed:
  "arrayAt t forest = Some arr \<Longrightarrow>
     pushAt (t @ [length arr]) ys (pushAt t [c] forest)
       = pushAt t [SaltComponent (c_type c) (c_import c) (c_props c) (c_children c @ ys)
                     (c_content c)] forest"
  by (induction t arbitrary: forest) (auto simp: nth_append split: if_splits)

lemma arrayAt_pushed:
  "arrayAt t forest = Some arr \<Longrightarrow>
     arrayAt (t @ [length arr]) (pushAt t [c] forest) = Some (c_children c)"
  by (induction t arbitrary: forest) (auto simp: nth_append split: if_splits)

lemma pushAt_Nil_items: "arrayAt t forest \<noteq> None \<Longrightarrow> pushAt t [] forest = forest"
proof (induction t arbitrary: forest)
  case Nil
  show ?case by simp
next
  case (Cons i t)
  then have i: "i < length forest" and "arrayAt t (c_children (forest ! i)) \<noteq> None"
    by (auto split: if_splits)
  with Cons.IH have "pushAt t [] (c_children (forest ! i)) = c_children (forest ! i)" by simp
  with i show ?case by (simp add: list_update_same_conv)
qed

lemma walk_pushes_mappedForest:
  "arrayAt target components \<noteq> None \<Longrightarrow>
     processNode nd components target = pushAt target (mappedForest nd) components"
  "arrayAt target components \<noteq> None \<Longrightarrow>
     forEachChild kids components target
       = pushAt target (concat (map mappedForest kids)) components"
proof (induction nd components target and kids components target
       rule: processNode_forEachChild.induct)
  case (1 n kids components target)
  from "1.prems" obtain arr where arr: "arrayAt target components = Some arr" by auto
  show ?case
  proof (cases "createSaltComponent n")
    case None
    with "1.IH"(1)[OF None "1.prems"] show ?thesis by simp
  next
    case (Some c)
    have len: "lengthAt target components = length arr" by (simp add: lengthAt_def arr)
    have "arrayAt (target @ [lengthAt target components]) (pushAt target [c] components) \<noteq> None"
      using arrayAt_pushed[OF arr, of c] len by simp
    from "1.IH"(2)[OF Some this]
    have "forEachChild kids (pushAt target [c] components) (target @ [lengthAt target components])
            = pushAt (target @ [length arr]) (concat (map mappedForest kids))
                (pushAt target [c] components)"
      by (simp add: len)
    also have "\<dots> = pushAt target
                 [SaltComponent (c_type c) (c_import c) (c_props c)
                    (c_children c @ concat (map mappedForest kids)) (c_content c)] components"
      by (rule pushAt_into_pushed[OF arr])
    finally show ?thesis using Some createSaltComponent_Some(2)[OF Some] by simp
  qed
next
  case (2 components target)
  then show ?case by (simp add: pushAt_Nil_items)
next
  case (3 k ks components target)
  from "3.prems" obtain arr where arr: "arrayAt target components = Some arr" by auto
  have step: "processNode k components target = pushAt target (mappedForest k) components"
    by (rule "3.IH"(1)[OF "3.prems"])
  have "arrayAt target (processNode k components target) \<noteq> None"
    unfolding step using arrayAt_pushAt[OF arr] by simp
  from "3.IH"(2)[OF this] step show ?case by (simp add: pushAt_pushAt)
qed

lemma componentCount_mappedForest:
  "sum_list (map componentCount (mappedForest nd)) = classifiedCount nd"
proof (induction nd)
  case (Node n kids)
  then have kids: "sum_list (map componentCount (concat (map mappedForest kids)))
                   = sum_list (map classifiedCount kids)"
    by (induction kids) auto
  show ?case
  proof (cases "createSaltComponent n")
    case None
    then have "detectComponentType n = None" by (simp add: createSaltComponent_None)
    with kids None show ?thesis by simp
  next
    case (Some c)
    with kids createSaltComponent_Some(1)[OF Some] show ?thesis by simp
  qed
qed

lemma types_mappedForest:
  "c \<in> set (concat (map allComponents (mappedForest nd)))
     \<Longrightarrow> c_type c \<in> set (map fst componentMap) \<or> c_type c = ''Box''"
proof (induction nd arbitrary: c)
  case (Node n kids)
  have kids: "c_type c' \<in> set (map fst componentMap) \<or> c_type c' = ''Box''"
    if "c' \<in> set (concat (map allComponents (concat (map mappedForest kids))))" for c'
    using that Node.IH by auto
  show ?case
  proof (cases "createSaltComponent n")
    case None
    with Node.prems kids show ?thesis by simp
  next
    case (Some c0)
    from createSaltComponent_Some(1)[OF Some]
    have c0: "c_type c0 \<in> set (map fst componentMap) \<or> c_type c0 = ''Box''"
      by (rule detectComponentType_range)
    from Some Node.prems
    have "c = SaltComponent (c_type c0) (c_import c0) (c_props c0)
                (concat (map mappedForest kids)) (c_content c0)
          \<or> c \<in> set (concat (map allComponents (concat (map mappedForest kids))))"
      by simp
    then show ?thesis
    proof
      assume "c = SaltComponent (c_type c0) (c_import c0) (c_props c0)
                (concat (map mappedForest kids)) (c_content c0)"
      then have "c_type c = c_type c0" by simp
      with c0 show ?thesis by simp
    next
      assume "c \<in> set (concat (map allComponents (concat (map mappedForest kids))))"
      then show ?thesis by (rule kids)
    qed
  qed
qed

lemma created_in_mappedForest:
  "c \<in> set (concat (map allComponents (mappedForest nd)))
     \<Longrightarrow> \<exists>n c0. createSaltComponent n = Some c0 \<and> c_type c = c_type c0
               \<and> c_import c = c_import c0"
proof (induction nd arbitrary: c)
  case (Node n kids)
  have kids: "\<exists>n c0. createSaltComponent n = Some c0 \<and> c_type c' = c_type c0
               \<and> c_import c' = c_import c0"
    if "c' \<in> set (concat (map allComponents (concat (map mappedForest kids))))" for c'
  proof -
    from that obtain k where k: "k \<in> set kids"
        and "c' \<in> set (concat (map allComponents (mappedForest k)))"
      by auto
    then show ?thesis by (rule Node.IH)
  qed
  show ?case
  proof (cases "createSaltComponent n")
    case None
    with Node.prems kids show ?thesis by simp
  next
    case (Some c0)
    from Some Node.prems
    have "c = SaltComponent (c_type c0) (c_import c0) (c_props c0)
                (concat (map mappedForest kids)) (c_content c0)
          \<or> c \<in> set (concat (map allComponents (concat (map mappedForest kids))))"
      by simp
    then show ?thesis
    proof
      assume "c = SaltComponent (c_type c0) (c_import c0) (c_props c0)
                (concat (map mappedForest kids)) (c_content c0)"
      then have "c_type c = c_type c0 \<and> c_import c = c_import c0" by simp
      with Some show ?thesis by blast
    next
      assume "c \<in> set (concat (map allComponents (concat (map mappedForest kids))))"
      then show ?thesis by (rule kids)
    qed
  qed
qed

lemma mapToSaltComponents_mappedForest: "mapToSaltComponents nd = mappedForest nd"
  by (simp add: mapToSaltComponents_def walk_pushes_mappedForest)

text \<open>
  Claim C2. Where the target path leads to an array, the walk pushes onto that array
  exactly the declarative forest of the node, in which an unclassified node yields no
  output node and the forests of its children take its place under the current mapped
  parent; so the mapper returns the declarative forest of the root. An unclassified
  node is processed as its children are, with the same target. The output has as many
  nodes as the design tree has classified nodes. In particular: for a classified root
  \<open>r\<close> whose only child is an unclassified wrapper \<open>w\<close> with one classified child
  \<open>g\<close>, the output is the mapped root with the mapped grandchild as its only, direct
  child.
\<close>

theorem unmapped_nodes_are_flattened:
  "(arrayAt target components \<noteq> None
      \<longrightarrow> processNode nd components target = pushAt target (mappedForest nd) components)
   \<and> mapToSaltComponents nd = mappedForest nd
   \<and> (detectComponentType w = None
        \<longrightarrow> processNode (Node w wkids) components target
            = forEachChild wkids components target)
   \<and> sum_list (map componentCount (mapToSaltComponents nd)) = classifiedCount nd
   \<and> (createSaltComponent r = Some cr \<and> detectComponentType w = None
        \<and> createSaltComponent g = Some cg
      \<longrightarrow> mapToSaltComponents (Node r [Node w [Node g gkids]]) =
            [SaltComponent (c_type cr) (c_import cr) (c_props cr)
               [SaltComponent (c_type cg) (c_import cg) (c_props cg)
                  (concat (map mappedForest gkids)) (c_content cg)]
               (c_content cr)])"
proof (intro conjI impI)
  assume "arrayAt target components \<noteq> None"
  then show "processNode nd components target = pushAt target (mappedForest nd) components"
    by (rule walk_pushes_mappedForest)
next
  show "mapToSaltComponents nd = mappedForest nd"
    by (rule mapToSaltComponents_mappedForest)
next
  assume "detectComponentType w = None"
  then show "processNode (Node w wkids) components target
               = forEachChild wkids components target"
    by (simp add: createSaltComponent_def)
next
  show "sum_list (map componentCount (mapToSaltComponents nd)) = classifiedCount nd"
    by (simp add: mapToSaltComponents_mappedForest componentCount_mappedForest)
next
  assume h: "createSaltComponent r = Some cr \<and> detectComponentType w = None
        \<and> createSaltComponent g = Some cg"
  then have "createSaltComponent w = None" by (simp add: createSaltComponent_None)
  with h show "mapToSaltComponents (Node r [Node w [Node g gkids]]) =
            [SaltComponent (c_type cr) (c_import cr) (c_props cr)
               [SaltComponent (c_type cg) (c_import cg) (c_props cg)
                  (concat (map mappedForest gkids)) (c_content cg)]
               (c_content cr)]"
    by (simp add: mapToSaltComponents_mappedForest)
qed

lemma wrapped_parts:
  "createSaltComponent ((bare ''FRAME'')\<lparr>n_layout := Some \<lparr>l_mode = Some ''VERTICAL'',
       l_gap = None, l_align = None, l_justify = None\<rparr>\<rparr>)
     = Some (SaltComponent ''Stack'' ''@salt-ds/core/StackLayout''
               [(''gap'', PNum 6), (''align'', PStr ''start'')] [] None)"
  "detectComponentType (bare ''GROUP'') = None"
  "createSaltComponent ((bare ''TEXT'')\<lparr>n_text := Some ''Hi''\<rparr>)
     = Some (SaltComponent ''Text'' ''@salt-ds/core/Text'' [] [] (Some ''Hi''))"
  by code_simp+

text \<open>
  The hypotheses of C2 hold for a vertical frame holding a node of kind GROUP (which
  the classifier does not map) that holds one text node.
\<close>

theorem unmapped_wrapper_witness:
  "detectComponentType (bare ''GROUP'') = None
   \<and> arrayAt [] [] \<noteq> None
   \<and> mapToSaltComponents wrapped =
       [SaltComponent ''Stack'' ''@salt-ds/core/StackLayout''
          [(''gap'', PNum 6), (''align'', PStr ''start'')]
          [SaltComponent ''Text'' ''@salt-ds/core/Text'' [] [] (Some ''Hi'')] None]"
proof -
  let ?r = "(bare ''FRAME'')\<lparr>n_layout := Some \<lparr>l_mode = Some ''VERTICAL'',
                  l_gap = None, l_align = None, l_justify = None\<rparr>\<rparr>"
  let ?g = "(bare ''TEXT'')\<lparr>n_text := Some ''Hi''\<rparr>"
  let ?cr = "SaltComponent ''Stack'' ''@salt-ds/core/StackLayout''
                 [(''gap'', PNum 6), (''align'', PStr ''start'')] [] None"
  let ?cg = "SaltComponent ''Text'' ''@salt-ds/core/Text'' [] [] (Some ''Hi'')"
  have pre: "createSaltComponent ?r = Some ?cr \<and> detectComponentType (bare ''GROUP'') = None
        \<and> createSaltComponent ?g = Some ?cg"
    using wrapped_parts by simp
  from unmapped_nodes_are_flattened [of "[]" "[]" wrapped "bare ''GROUP''" "[]" ?r ?cr ?g ?cg "[]"]
  have "createSaltComponent ?r = Some ?cr \<and> detectComponentType (bare ''GROUP'') = None
        \<and> createSaltComponent ?g = Some ?cg
      \<longrightarrow> mapToSaltComponents (Node ?r [Node (bare ''GROUP'') [Node ?g []]]) =
            [SaltComponent (c_type ?cr) (c_import ?cr) (c_props ?cr)
               [SaltComponent (c_type ?cg) (c_import ?cg) (c_props ?cg)
                  (concat (map mappedForest [])) (c_content ?cg)]
               (c_content ?cr)]"
    by (elim conjE)
  with pre have "mapToSaltComponents (Node ?r [Node (bare ''GROUP'') [Node ?g []]]) =
            [SaltComponent (c_type ?cr) (c_import ?cr) (c_props ?cr)
               [SaltComponent (c_type ?cg) (c_import ?cg) (c_props ?cg)
                  (concat (map mappedForest [])) (c_content ?cg)]
               (c_content ?cr)]"
    by (rule rev_mp)
  then have "mapToSaltComponents wrapped = [SaltComponent ''Stack'' ''@salt-ds/core/StackLayout''
          [(''gap'', PNum 6), (''align'', PStr ''start'')]
          [SaltComponent ''Text'' ''@salt-ds/core/Text'' [] [] (Some ''Hi'')] None]"
    by (simp add: wrapped_def)
  with wrapped_parts(2) show ?thesis by simp
qed

text \<open>
  Claim C6, as stated, fails: a frame without a name, a layout mode or a corner radius
  is mapped to the type Box, which is not a key of the catalog.
\<close>

theorem box_type_counterexample:
  "mapToSaltComponents (Node (bare ''FRAME'') []) = [SaltComponent ''Box'' ''Box'' [] [] None]
   \<and> ''Box'' \<notin> set (map fst componentMap)"
  by code_simp

text \<open>
  Claim C6, amended. Every node of every output tree has a type that is a key of the
  catalog or is the type Box, which the catalog does not list; its import path is the
  catalog's path for the type, and the type name itself for Box.
\<close>

theorem output_types_in_catalog_or_Box:
  "(\<forall>c \<in> set (concat (map allComponents (mapToSaltComponents nd))).
      (c_type c \<in> set (map fst componentMap) \<or> c_type c = ''Box'')
      \<and> c_import c = (case map_of componentMap (c_type c) of
                         Some imp \<Rightarrow> imp | None \<Rightarrow> c_type c))
   \<and> ''Box'' \<notin> set (map fst componentMap)"
proof (intro conjI ballI)
  fix c
  assume "c \<in> set (concat (map allComponents (mapToSaltComponents nd)))"
  then have c: "c \<in> set (concat (map allComponents (mappedForest nd)))"
    by (simp only: mapToSaltComponents_mappedForest)
  then show "c_type c \<in> set (map fst componentMap) \<or> c_type c = ''Box''"
    by (rule types_mappedForest)
  from created_in_mappedForest[OF c] obtain n c0 where
    n: "createSaltComponent n = Some c0" and t: "c_type c = c_type c0"
    and i: "c_import c = c_import c0"
    by blast
  from createSaltComponent_Some(3)[OF n]
  show "c_import c = (case map_of componentMap (c_type c) of
                         Some imp \<Rightarrow> imp | None \<Rightarrow> c_type c)"
    unfolding t i .
next
  show "''Box'' \<notin> set (map fst componentMap)"
    by (simp add: catalog_keys)
qed

text \<open>
  The quantifier of C6 ranges over a non-empty set: the Text node of the end-to-end
  scenario is an output node, and its type is a catalog key.
\<close>

theorem output_types_witness:
  "SaltComponent ''Text'' ''@salt-ds/core/Text'' [] [] (Some ''Hello'')
     \<in> set (concat (map allComponents (mapToSaltComponents scenario)))
   \<and> ''Text'' \<in> set (map fst componentMap)
   \<and> map_of componentMap ''Text'' = Some ''@salt-ds/core/Text''"
proof -
  have m: "SaltComponent ''Text'' ''@salt-ds/core/Text'' [] [] (Some ''Hello'')
     \<in> set (concat (map allComponents (mapToSaltComponents scenario)))"
    by code_simp
  have "''Text'' \<noteq> ''Box''" by simp
  with output_types_in_catalog_or_Box [of scenario] m
  have "''Text'' \<in> set (map fst componentMap)" by fastforce
  moreover have "map_of componentMap ''Text'' = Some ''@salt-ds/core/Text''"
    by (simp add: componentMap_def)
  ultimately show ?thesis using m by simp
qed

section \<open>The prop extractor\<close>

lemma map_of_assign_style:
  "k \<notin> {''fontSize'', ''fontWeight'', ''textAlign''}
     \<Longrightarrow> map_of (assign p (extractStyleProps st)) k = map_of p k"
  by (auto simp: assign_def extractStyleProps_def Let_def update_conv'
           split: option.splits)

lemma detect_Input_named:
  assumes "detectComponentType n = Some ''Input''"
  shows "\<exists>nm. n_name n = Some nm \<and> nm \<noteq> []"
proof (cases "n_name n")
  case None
  with assms show ?thesis
    by (auto simp: detectComponentType_def matchComponentName_def truthy_str_def
             split: if_splits)
next
  case (Some nm)
  show ?thesis
  proof (cases "nm = []")
    case True
    with Some assms show ?thesis
      by (auto simp: detectComponentType_def matchComponentName_def truthy_str_def
               split: if_splits)
  next
    case False
    with Some show ?thesis by simp
  qed
qed

lemma placeholder_v1:
  "map_of (extractProps n ''Input'') ''placeholder'' =
     Some (PStr (case n_name n of
                   Some x \<Rightarrow> if x \<noteq> [] then x else ''Enter text...''
                 | None \<Rightarrow> ''Enter text...''))"
  by (auto simp: extractProps_def Let_def update_conv' map_of_assign_style
           split: option.splits)

lemma text_props_v1:
  "map_of (extractProps n ''Text'') ''styleAs'' = None"
  "map_of (extractProps n ''Text'') ''align'' = None"
  by (auto simp: extractProps_def Let_def update_conv' map_of_assign_style
           split: option.splits)

lemma text_style_v1:
  assumes "n_style n = Some st"
  shows "s_textAlign st = Some a \<Longrightarrow> a \<noteq> []
           \<Longrightarrow> map_of (extractProps n ''Text'') ''textAlign'' = Some (PStr (toLowerCase a))"
    and "s_fontSize st = Some f \<Longrightarrow> f \<noteq> 0
           \<Longrightarrow> map_of (extractProps n ''Text'') ''fontSize'' = Some (PNum f)"
  using assms
  by (auto simp: extractProps_def Let_def update_conv' assign_def extractStyleProps_def
           split: option.splits)


text \<open>
  Claim C3, as stated, fails on the mapper of salt-component-mapper.ts: a rectangle
  named "Email Input" is resolved to Input, its name contains "email", and its
  placeholder is the name itself, not "Enter email address".
\<close>

theorem placeholder_is_name_counterexample:
  "createSaltComponent emailInput =
     Some (SaltComponent ''Input'' ''@salt-ds/core/Input''
             [(''placeholder'', PStr ''Email Input'')] [] None)
   \<and> str_includes (toLowerCase ''Email Input'') ''email''
   \<and> ''Email Input'' \<noteq> ''Enter email address''"
  by code_simp

lemma placeholder_guide:
  assumes "n_name n = Some nm"
  shows "\<exists>ps ph. extractProps_guide n kids ''input'' = Inr ps
           \<and> extractPlaceholder n kids = Inr ph
           \<and> map_of ps ''placeholder'' = Some (PStr ph)"
  using assms
  by (auto simp: extractProps_guide_def extractPlaceholder_def Let_def update_conv')

text \<open>
  Claim C3, amended. In salt-component-mapper.ts the placeholder of an Input is the
  node's name when it has a non-empty one and "Enter text..." otherwise; a node that
  the classifier resolves to Input always has a non-empty name, so its placeholder is
  its name. The keyword lookup of the claim is what the mapper variant of the
  implementation guide computes for a named node: on the lower-cased name, "email"
  gives "Enter email address", else "password" gives "Enter password", else "search"
  gives "Search...", else "name" gives "Enter your name", else the text of the first
  child of kind TEXT when that text is present and non-empty, else "Enter text...".
\<close>

theorem input_placeholder_per_variant:
  "map_of (extractProps n ''Input'') ''placeholder'' =
     Some (PStr (case n_name n of
                   Some x \<Rightarrow> if x \<noteq> [] then x else ''Enter text...''
                 | None \<Rightarrow> ''Enter text...''))
   \<and> (detectComponentType n = Some ''Input''
        \<longrightarrow> (\<exists>nm. n_name n = Some nm \<and> nm \<noteq> []
                  \<and> map_of (extractProps n ''Input'') ''placeholder'' = Some (PStr nm)))
   \<and> (n_name n = Some nm \<longrightarrow>
        (\<exists>ps ph. extractProps_guide n kids ''input'' = Inr ps
           \<and> map_of ps ''placeholder'' = Some (PStr ph)
           \<and> (str_includes (toLowerCase nm) ''email'' \<longrightarrow> ph = ''Enter email address'')
           \<and> (\<not> str_includes (toLowerCase nm) ''email''
                \<and> str_includes (toLowerCase nm) ''password'' \<longrightarrow> ph = ''Enter password'')
           \<and> (\<not> str_includes (toLowerCase nm) ''email''
                \<and> \<not> str_includes (toLowerCase nm) ''password''
                \<and> str_includes (toLowerCase nm) ''search'' \<longrightarrow> ph = ''Search...'')
           \<and> (\<not> str_includes (toLowerCase nm) ''email''
                \<and> \<not> str_includes (toLowerCase nm) ''password''
                \<and> \<not> str_includes (toLowerCase nm) ''search''
                \<and> str_includes (toLowerCase nm) ''name'' \<longrightarrow> ph = ''Enter your name'')
           \<and> (\<not> str_includes (toLowerCase nm) ''email''
                \<and> \<not> str_includes (toLowerCase nm) ''password''
                \<and> \<not> str_includes (toLowerCase nm) ''search''
                \<and> \<not> str_includes (toLowerCase nm) ''name''
              \<longrightarrow> ph = (case List.find (\<lambda>c. n_type (attrs c) = ''TEXT'') kids of
                          Some textChild \<Rightarrow>
                            (case n_text (attrs textChild) of
                               Some t \<Rightarrow> if t \<noteq> [] then t else ''Enter text...''
                             | None \<Rightarrow> ''Enter text...'')
                        | None \<Rightarrow> ''Enter text...''))))"
proof (intro conjI impI)
  show "map_of (extractProps n ''Input'') ''placeholder'' =
     Some (PStr (case n_name n of
                   Some x \<Rightarrow> if x \<noteq> [] then x else ''Enter text...''
                 | None \<Rightarrow> ''Enter text...''))"
    by (rule placeholder_v1)
next
  assume "detectComponentType n = Some ''Input''"
  then obtain x where "n_name n = Some x" "x \<noteq> []"
    using detect_Input_named by blast
  then show "\<exists>nm. n_name n = Some nm \<and> nm \<noteq> []
                  \<and> map_of (extractProps n ''Input'') ''placeholder'' = Some (PStr nm)"
    by (simp add: placeholder_v1)
next
  assume nm: "n_name n = Some nm"
  from placeholder_guide[OF nm, of kids] obtain ps ph where
    ps: "extractProps_guide n kids ''input'' = Inr ps"
    and ph: "extractPlaceholder n kids = Inr ph"
    and m: "map_of ps ''placeholder'' = Some (PStr ph)"
    by blast
  from ph nm have
    "ph = (if str_includes (toLowerCase nm) ''email'' then ''Enter email address''
           else if str_includes (toLowerCase nm) ''password'' then ''Enter password''
           else if str_includes (toLowerCase nm) ''search'' then ''Search...''
           else if str_includes (toLowerCase nm) ''name'' then ''Enter your name''
           else (case List.find (\<lambda>c. n_type (attrs c) = ''TEXT'') kids of
                   Some textChild \<Rightarrow>
                     (case n_text (attrs textChild) of
                        Some t \<Rightarrow> if t \<noteq> [] then t else ''Enter text...''
                      | None \<Rightarrow> ''Enter text...'')
                 | None \<Rightarrow> ''Enter text...''))"
    by (simp add: extractPlaceholder_def Let_def)
  with ps m show "\<exists>ps ph. extractProps_guide n kids ''input'' = Inr ps
           \<and> map_of ps ''placeholder'' = Some (PStr ph)
           \<and> (str_includes (toLowerCase nm) ''email'' \<longrightarrow> ph = ''Enter email address'')
           \<and> (\<not> str_includes (toLowerCase nm) ''email''
                \<and> str_includes (toLowerCase nm) ''password'' \<longrightarrow> ph = ''Enter password'')
           \<and> (\<not> str_includes (toLowerCase nm) ''email''
                \<and> \<not> str_includes (toLowerCase nm) ''password''
                \<and> str_includes (toLowerCase nm) ''search'' \<longrightarrow> ph = ''Search...'')
           \<and> (\<not> str_includes (toLowerCase nm) ''email''
                \<and> \<not> str_includes (toLowerCase nm) ''password''
                \<and> \<not> str_includes (toLowerCase nm) ''search''
                \<and> str_includes (toLowerCase nm) ''name'' \<longrightarrow> ph = ''Enter your name'')
           \<and> (\<not> str_includes (toLowerCase nm) ''email''
                \<and> \<not> str_includes (toLowerCase nm) ''password''
                \<and> \<not> str_includes (toLowerCase nm) ''search''
                \<and> \<not> str_includes (toLowerCase nm) ''name''
              \<longrightarrow> ph = (case List.find (\<lambda>c. n_type (attrs c) = ''TEXT'') kids of
                          Some textChild \<Rightarrow>
                            (case n_text (attrs textChild) of
                               Some t \<Rightarrow> if t \<noteq> [] then t else ''Enter text...''
                             | None \<Rightarrow> ''Enter text...'')
                        | None \<Rightarrow> ''Enter text...''))"
    by simp
qed

lemma emailInput_facts:
  "n_name emailInput = Some ''Email Input''"
  "detectComponentType emailInput = Some ''Input''"
  "str_includes (toLowerCase ''Email Input'') ''email''"
  by code_simp+

text \<open>
  The hypotheses of C3 hold for the rectangle named "Email Input": the first mapper
  gives it its name as placeholder, the guide's variant gives "Enter email address".
\<close>

theorem input_placeholder_witness:
  "detectComponentType emailInput = Some ''Input''
   \<and> map_of (extractProps emailInput ''Input'') ''placeholder'' = Some (PStr ''Email Input'')
   \<and> n_name emailInput = Some ''Email Input''
   \<and> str_includes (toLowerCase ''Email Input'') ''email''
   \<and> (\<exists>ps. extractProps_guide emailInput [] ''input'' = Inr ps
         \<and> map_of ps ''placeholder'' = Some (PStr ''Enter email address''))"
  using input_placeholder_per_variant [of emailInput "''Email Input''" "[]"] emailInput_facts
  by auto

text \<open>
  Claim C4, as stated, fails. In salt-component-mapper.ts a text node with font size 32
  and alignment CENTER gets the props fontSize and textAlign, and neither styleAs nor
  align. In the guide's variant a text node without a style descriptor (here one named
  "Caption") gets no props at all.
\<close>

theorem text_styleAs_counterexample:
  "createSaltComponent titleText =
     Some (SaltComponent ''Text'' ''@salt-ds/core/Text''
             [(''fontSize'', PNum 32), (''textAlign'', PStr ''center'')] [] (Some ''Title''))
   \<and> map_of [(''fontSize'', PNum 32), (''textAlign'', PStr ''center'')] ''styleAs'' = None
   \<and> extractProps_guide captionText [] ''text'' = Inr []"
  by code_simp

lemma mapTextStyle_tiers:
  "mapTextStyle st =
     (case s_fontSize st of
        None \<Rightarrow> ''body''
      | Some f \<Rightarrow>
          if f = 0 then ''body''
          else if 32 \<le> f then ''h1'' else if 24 \<le> f then ''h2''
          else if 20 \<le> f then ''h3'' else if 18 \<le> f then ''h4'' else ''body'')"
  by (simp add: mapTextStyle_def Let_def split: option.splits)

lemma text_props_guide:
  assumes "n_style n = Some st"
  shows "\<exists>ps. extractProps_guide n kids ''text'' = Inr ps
           \<and> map_of ps ''styleAs'' = Some (PStr (mapTextStyle st))
           \<and> map_of ps ''align'' =
               (case s_textAlign st of
                  Some a \<Rightarrow> if a \<noteq> [] then Some (PStr (toLowerCase a)) else None
                | None \<Rightarrow> None)"
  using assms
  by (auto simp: extractProps_guide_def Let_def update_conv' split: option.splits)

lemma text_props_guide_no_style:
  assumes "n_style n = None"
  shows "\<exists>ps. extractProps_guide n kids ''text'' = Inr ps \<and> map_of ps ''styleAs'' = None
           \<and> map_of ps ''align'' = None"
  using assms
  by (auto simp: extractProps_guide_def Let_def update_conv' split: option.splits)

text \<open>
  Claim C4, amended. The mapper of salt-component-mapper.ts never sets styleAs or align
  on a Text node; it copies a non-zero font size as fontSize and a non-empty text
  alignment, lower-cased, as textAlign. The mapper variant of the implementation guide
  sets styleAs only for a node with a style descriptor: h1 for a font size of at least
  32, h2 from 24, h3 from 20, h4 from 18, and body below 18 or without a font size; it
  sets align to the lower-cased text alignment when the style has a non-empty one, and
  sets neither prop for a node without a style descriptor.
\<close>

theorem text_props_per_variant:
  "map_of (extractProps n ''Text'') ''styleAs'' = None
   \<and> map_of (extractProps n ''Text'') ''align'' = None
   \<and> (n_style n = Some st \<and> s_textAlign st = Some a \<and> a \<noteq> []
        \<longrightarrow> map_of (extractProps n ''Text'') ''textAlign'' = Some (PStr (toLowerCase a)))
   \<and> (n_style n = Some st \<and> s_fontSize st = Some f \<and> f \<noteq> 0
        \<longrightarrow> map_of (extractProps n ''Text'') ''fontSize'' = Some (PNum f))
   \<and> (n_style n = Some st
        \<longrightarrow> (\<exists>ps. extractProps_guide n kids ''text'' = Inr ps
               \<and> map_of ps ''styleAs'' = Some (PStr (mapTextStyle st))
               \<and> (s_textAlign st = Some a \<and> a \<noteq> []
                    \<longrightarrow> map_of ps ''align'' = Some (PStr (toLowerCase a)))
               \<and> (s_textAlign st = None \<or> s_textAlign st = Some []
                    \<longrightarrow> map_of ps ''align'' = None)))
   \<and> (n_style n = None
        \<longrightarrow> (\<exists>ps. extractProps_guide n kids ''text'' = Inr ps
               \<and> map_of ps ''styleAs'' = None \<and> map_of ps ''align'' = None))
   \<and> (s_fontSize st = Some f \<and> 32 \<le> f \<longrightarrow> mapTextStyle st = ''h1'')
   \<and> (s_fontSize st = Some f \<and> 24 \<le> f \<and> f < 32 \<longrightarrow> mapTextStyle st = ''h2'')
   \<and> (s_fontSize st = Some f \<and> 20 \<le> f \<and> f < 24 \<longrightarrow> mapTextStyle st = ''h3'')
   \<and> (s_fontSize st = Some f \<and> 18 \<le> f \<and> f < 20 \<longrightarrow> mapTextStyle st = ''h4'')
   \<and> (s_fontSize st = Some f \<and> f < 18 \<longrightarrow> mapTextStyle st = ''body'')
   \<and> (s_fontSize st = None \<longrightarrow> mapTextStyle st = ''body'')"
proof (intro conjI impI)
  show "map_of (extractProps n ''Text'') ''styleAs'' = None"
    and "map_of (extractProps n ''Text'') ''align'' = None"
    by (rule text_props_v1)+
next
  assume "n_style n = Some st \<and> s_textAlign st = Some a \<and> a \<noteq> []"
  then show "map_of (extractProps n ''Text'') ''textAlign'' = Some (PStr (toLowerCase a))"
    by (simp add: text_style_v1(1))
next
  assume "n_style n = Some st \<and> s_fontSize st = Some f \<and> f \<noteq> 0"
  then show "map_of (extractProps n ''Text'') ''fontSize'' = Some (PNum f)"
    by (simp add: text_style_v1(2))
next
  assume st: "n_style n = Some st"
  from text_props_guide[OF st, of kids] obtain ps where
    "extractProps_guide n kids ''text'' = Inr ps"
    "map_of ps ''styleAs'' = Some (PStr (mapTextStyle st))"
    "map_of ps ''align'' =
               (case s_textAlign st of
                  Some a \<Rightarrow> if a \<noteq> [] then Some (PStr (toLowerCase a)) else None
                | None \<Rightarrow> None)"
    by blast
  then show "\<exists>ps. extractProps_guide n kids ''text'' = Inr ps
               \<and> map_of ps ''styleAs'' = Some (PStr (mapTextStyle st))
               \<and> (s_textAlign st = Some a \<and> a \<noteq> []
                    \<longrightarrow> map_of ps ''align'' = Some (PStr (toLowerCase a)))
               \<and> (s_textAlign st = None \<or> s_textAlign st = Some []
                    \<longrightarrow> map_of ps ''align'' = None)"
    by auto
next
  assume "n_style n = None"
  then show "\<exists>ps. extractProps_guide n kids ''text'' = Inr ps
               \<and> map_of ps ''styleAs'' = None \<and> map_of ps ''align'' = None"
    by (rule text_props_guide_no_style)
qed (auto simp: mapTextStyle_tiers)

lemma titleText_facts:
  "n_style titleText = Some \<lparr>s_fontSize = Some 32, s_fontWeight = None,
                             s_textAlign = Some ''CENTER''\<rparr>"
  "toLowerCase ''CENTER'' = ''center''"
  "detectComponentType titleText = Some ''Text''"
  by code_simp+

text \<open>
  The hypotheses of C4 hold for a text node with font size 32 and alignment CENTER.
\<close>

theorem text_props_witness:
  "detectComponentType titleText = Some ''Text''
   \<and> map_of (extractProps titleText ''Text'') ''styleAs'' = None
   \<and> map_of (extractProps titleText ''Text'') ''textAlign'' = Some (PStr ''center'')
   \<and> map_of (extractProps titleText ''Text'') ''fontSize'' = Some (PNum 32)
   \<and> (\<exists>ps. extractProps_guide titleText [] ''text'' = Inr ps
         \<and> map_of ps ''styleAs'' = Some (PStr ''h1'')
         \<and> map_of ps ''align'' = Some (PStr ''center''))
   \<and> mapTextStyle \<lparr>s_fontSize = Some 20, s_fontWeight = None, s_textAlign = None\<rparr> = ''h3''"
proof -
  let ?st = "\<lparr>s_fontSize = Some 32, s_fontWeight = None, s_textAlign = Some ''CENTER''\<rparr>"
  note t = text_props_per_variant [of titleText ?st "''CENTER''" 32 "[]"]
  note u = text_props_per_variant
             [of titleText "\<lparr>s_fontSize = Some 20, s_fontWeight = None, s_textAlign = None\<rparr>"
                 "''CENTER''" 20 "[]"]
  have h1: "mapTextStyle ?st = ''h1''" using t by simp
  have h3: "mapTextStyle \<lparr>s_fontSize = Some 20, s_fontWeight = None, s_textAlign = None\<rparr> = ''h3''"
    using u by simp
  from t titleText_facts h1 h3 show ?thesis by auto
qed

section \<open>The import section of the rendered context\<close>

lemma length_splitOn: "length (splitOn P s) = Suc (length (filter P s))"
  by (induction s) (auto split: list.splits)

lemma splitOn_no_separator: "\<forall>c \<in> set s. \<not> P c \<Longrightarrow> splitOn P s = [s]"
  by (induction s) auto

lemma last_splitOn:
  assumes "P d" and "\<forall>c \<in> set seg. \<not> P c"
  shows "last (splitOn P (pre @ d # seg)) = seg"
proof (induction pre)
  case Nil
  from assms show ?case by (simp add: splitOn_no_separator)
next
  case (Cons c pre)
  have len: "length (splitOn P (pre @ d # seg)) \<ge> 2"
    using assms(1) by (simp add: length_splitOn)
  then obtain w v ws where "splitOn P (pre @ d # seg) = w # v # ws"
    by (cases "splitOn P (pre @ d # seg)"; cases "tl (splitOn P (pre @ d # seg))") auto
  with Cons show ?case by auto
qed

lemma lastSegment_path:
  "CHR ''/'' \<notin> set seg \<Longrightarrow> lastSegment (pre @ ''/'' @ seg) = seg"
proof -
  assume a: "CHR ''/'' \<notin> set seg"
  let ?xs = "splitOn (\<lambda>c. c = CHR ''/'') (pre @ CHR ''/'' # seg)"
  have ne: "?xs \<noteq> []" using length_splitOn[of "\<lambda>c. c = CHR ''/''" "pre @ CHR ''/'' # seg"] by auto
  have "last ?xs = seg"
    by (rule last_splitOn) (use a in auto)
  with ne have "hd (rev ?xs) = seg" by (simp add: hd_rev)
  moreover from ne have "rev ?xs \<noteq> []" by simp
  ultimately show ?thesis
    by (cases "rev ?xs") (auto simp: lastSegment_def)
qed

lemma lastSegment_plain:
  assumes "CHR ''/'' \<notin> set s"
  shows "lastSegment s = s"
proof -
  from assms have "\<forall>c \<in> set s. \<not> (c = CHR ''/'')" by auto
  then have "splitOn (\<lambda>c. c = CHR ''/'') s = [s]" by (rule splitOn_no_separator)
  then show ?thesis by (simp add: lastSegment_def)
qed

lemma distinct_setAdd: "distinct xs \<Longrightarrow> distinct (setAdd xs x)"
  by (simp add: setAdd_def)

lemma set_setAdd: "set (setAdd xs x) = insert x (set xs)"
  by (auto simp: setAdd_def)

lemma foldl_setAdd:
  "distinct xs \<Longrightarrow> distinct (foldl setAdd xs ys) \<and> set (foldl setAdd xs ys) = set xs \<union> set ys"
  by (induction ys arbitrary: xs) (auto simp: distinct_setAdd set_setAdd)

lemma imports_of_buildComponentTree_step:
  assumes each: "\<And>c tree imps level. c \<in> set cs \<Longrightarrow>
            snd (buildComponent f c (tree, imps) level)
              = foldl setAdd imps (map c_import (allComponents c))"
  shows "snd (buildComponentTree f cs (tree, imps) level)
           = foldl setAdd imps (map c_import (concat (map allComponents cs)))"
  using assms
proof (induction cs arbitrary: tree imps)
  case Nil
  then show ?case by simp
next
  case (Cons c cs)
  obtain tree' imps' where r: "buildComponent f c (tree, imps) level = (tree', imps')"
    by (cases "buildComponent f c (tree, imps) level")
  from Cons.prems[of c tree imps level] r
  have e: "imps' = foldl setAdd imps (map c_import (allComponents c))"
    by simp
  have "snd (buildComponentTree f cs (tree', imps') level)
          = foldl setAdd imps' (map c_import (concat (map allComponents cs)))"
    by (rule Cons.IH) (use Cons.prems in auto)
  with r e show ?case by simp
qed

lemma imports_of_buildComponent:
  "snd (buildComponent f c (tree, imps) level)
     = foldl setAdd imps (map c_import (allComponents c))"
proof (induction c arbitrary: tree imps level)
  case (SaltComponent ty imp ps kids content)
  have kidsP: "snd (buildComponentTree f kids (t, is) l)
                 = foldl setAdd is (map c_import (concat (map allComponents kids)))"
    for t "is" l
    by (rule imports_of_buildComponentTree_step) (use SaltComponent.IH in auto)
  show ?case
  proof (cases "kids = []")
    case True
    then show ?thesis by (simp add: Let_def)
  next
    case False
    with kidsP show ?thesis by (simp add: Let_def)
  qed
qed

lemma imports_of_buildComponentTree:
  "snd (buildComponentTree f cs ([], []) 0)
     = foldl setAdd [] (map c_import (concat (map allComponents cs)))"
  by (rule imports_of_buildComponentTree_step) (rule imports_of_buildComponent)

lemma collect_is_fold_step:
  assumes "\<And>c acc. c \<in> set cs \<Longrightarrow> collectImport c acc = foldl recordImport acc (allComponents c)"
  shows "collectImports cs acc = foldl recordImport acc (concat (map allComponents cs))"
  using assms by (induction cs arbitrary: acc) auto

lemma collectImport_is_fold:
  "collectImport c acc = foldl recordImport acc (allComponents c)"
proof (induction c arbitrary: acc)
  case (SaltComponent ty imp ps kids content)
  have "collectImports kids a = foldl recordImport a (concat (map allComponents kids))" for a
    by (rule collect_is_fold_step) (use SaltComponent.IH in auto)
  then show ?case by simp
qed

lemma collectImports_is_fold:
  "collectImports cs acc = foldl recordImport acc (concat (map allComponents cs))"
  by (rule collect_is_fold_step) (rule collectImport_is_fold)

lemma update_existing:
  "distinct (map fst al) \<Longrightarrow> (k, v) \<in> set al \<Longrightarrow>
     \<exists>pre post. al = pre @ (k, v) # post \<and> AList.update k w al = pre @ (k, w) # post
                \<and> k \<notin> fst ` set pre \<and> k \<notin> fst ` set post"
proof (induction al)
  case Nil
  then show ?case by simp
next
  case (Cons p al)
  show ?case
  proof (cases "fst p = k")
    case True
    with Cons.prems have "p = (k, v)"
      by (metis distinct.simps(2) fst_conv image_eqI list.simps(9) prod.collapse set_ConsD
                set_map)
    with Cons.prems have "p # al = [] @ (k, v) # al \<and> AList.update k w (p # al) = [] @ (k, w) # al
                \<and> k \<notin> fst ` set [] \<and> k \<notin> fst ` set al"
      by auto
    then show ?thesis by blast
  next
    case False
    with Cons.prems have "distinct (map fst al)" "(k, v) \<in> set al" by auto
    from Cons.IH[OF this] obtain pre post where
      "al = pre @ (k, v) # post" "AList.update k w al = pre @ (k, w) # post"
      "k \<notin> fst ` set pre" "k \<notin> fst ` set post"
      by blast
    with False have "p # al = (p # pre) @ (k, v) # post
                \<and> AList.update k w (p # al) = (p # pre) @ (k, w) # post
                \<and> k \<notin> fst ` set (p # pre) \<and> k \<notin> fst ` set post"
      by auto
    then show ?thesis by blast
  qed
qed

lemma grouped_recordImport:
  assumes "grouped groups seen"
  shows "grouped (recordImport groups c) (seen @ [c])"
proof (cases "map_of groups (c_import c)")
  case None
  then have new: "c_import c \<notin> set (map fst groups)"
    by (simp add: map_of_eq_None_iff)
  from assms have keys: "set (map fst groups) = c_import ` set seen" by (simp add: grouped_def)
  with new have nobody: "\<forall>d \<in> set seen. c_import d \<noteq> c_import c"
    by (metis image_eqI)
  from None have r: "recordImport groups c = groups @ [(c_import c, [c_type c])]"
    by (simp add: recordImport_def)
  have old: "distinct (snd entry)
             \<and> set (snd entry) = {c_type ca | ca. ca \<in> set (seen @ [c]) \<and> c_import ca = fst entry}"
    if e: "entry \<in> set groups" for entry
  proof -
    from e new have "fst entry \<noteq> c_import c" by force
    moreover from e assms have "distinct (snd entry)"
      and "set (snd entry) = {c_type ca | ca. ca \<in> set seen \<and> c_import ca = fst entry}"
      by (simp_all add: grouped_def)
    ultimately show ?thesis by auto
  qed
  have fresh: "set [c_type c] = {c_type ca | ca. ca \<in> set (seen @ [c]) \<and> c_import ca = c_import c}"
    using nobody by auto
  show ?thesis
    unfolding r grouped_def
  proof (intro conjI ballI)
    show "distinct (map fst (groups @ [(c_import c, [c_type c])]))"
      using assms new by (simp add: grouped_def)
    show "set (map fst (groups @ [(c_import c, [c_type c])])) = c_import ` set (seen @ [c])"
      using keys by auto
  next
    fix entry assume "entry \<in> set (groups @ [(c_import c, [c_type c])])"
    then consider "entry \<in> set groups" | "entry = (c_import c, [c_type c])" by auto
    then have "distinct (snd entry)
             \<and> set (snd entry) = {c_type ca | ca. ca \<in> set (seen @ [c]) \<and> c_import ca = fst entry}"
    proof cases
      case 1
      then show ?thesis by (rule old)
    next
      case 2
      with fresh show ?thesis by simp
    qed
    then show "distinct (snd entry)"
      and "set (snd entry) = {c_type ca | ca. ca \<in> set (seen @ [c]) \<and> c_import ca = fst entry}"
      by simp_all
  qed
next
  case (Some names)
  then have mem: "(c_import c, names) \<in> set groups" by (rule map_of_SomeD)
  from assms have d: "distinct (map fst groups)" by (simp add: grouped_def)
  from assms have keys: "set (map fst groups) = c_import ` set seen" by (simp add: grouped_def)
  from update_existing[OF d mem, of "setAdd names (c_type c)"] obtain pre post where
    g: "groups = pre @ (c_import c, names) # post"
    and u: "AList.update (c_import c) (setAdd names (c_type c)) groups
              = pre @ (c_import c, setAdd names (c_type c)) # post"
    and npre: "c_import c \<notin> fst ` set pre" and npost: "c_import c \<notin> fst ` set post"
    by blast
  from Some have r: "recordImport groups c = pre @ (c_import c, setAdd names (c_type c)) # post"
    by (simp add: recordImport_def u)
  have samekeys: "map fst (pre @ (c_import c, setAdd names (c_type c)) # post) = map fst groups"
    by (simp add: g)
  have old: "distinct (snd entry)
             \<and> set (snd entry) = {c_type ca | ca. ca \<in> set (seen @ [c]) \<and> c_import ca = fst entry}"
    if e: "entry \<in> set pre \<union> set post" for entry
  proof -
    from e npre npost have "fst entry \<noteq> c_import c" by force
    moreover from e have "entry \<in> set groups" by (auto simp: g)
    with assms have "distinct (snd entry)"
      and "set (snd entry) = {c_type ca | ca. ca \<in> set seen \<and> c_import ca = fst entry}"
      by (simp_all add: grouped_def)
    ultimately show ?thesis by auto
  qed
  from assms have "\<forall>entry \<in> set groups.
           distinct (snd entry)
           \<and> set (snd entry) = {c_type c | c. c \<in> set seen \<and> c_import c = fst entry}"
    by (simp add: grouped_def)
  from bspec[OF this mem] have dn: "distinct names"
    and sn: "set names = {c_type ca | ca. ca \<in> set seen \<and> c_import ca = c_import c}"
    by simp_all
  have upd: "distinct (setAdd names (c_type c))
             \<and> set (setAdd names (c_type c))
                 = {c_type ca | ca. ca \<in> set (seen @ [c]) \<and> c_import ca = c_import c}"
    using dn sn by (auto simp: distinct_setAdd set_setAdd)
  show ?thesis
    unfolding r grouped_def
  proof (intro conjI ballI)
    show "distinct (map fst (pre @ (c_import c, setAdd names (c_type c)) # post))"
      unfolding samekeys by (rule d)
    have "c_import c \<in> c_import ` set seen" using keys mem by force
    then show "set (map fst (pre @ (c_import c, setAdd names (c_type c)) # post))
            = c_import ` set (seen @ [c])"
      unfolding samekeys keys by auto
  next
    fix entry
    assume "entry \<in> set (pre @ (c_import c, setAdd names (c_type c)) # post)"
    then consider "entry = (c_import c, setAdd names (c_type c))" | "entry \<in> set pre \<union> set post"
      by auto
    then have "distinct (snd entry)
           \<and> set (snd entry) = {c_type ca | ca. ca \<in> set (seen @ [c]) \<and> c_import ca = fst entry}"
    proof cases
      case 1
      with upd show ?thesis by simp
    next
      case 2
      then show ?thesis by (rule old)
    qed
    then show "distinct (snd entry)"
      and "set (snd entry) = {c_type ca | ca. ca \<in> set (seen @ [c]) \<and> c_import ca = fst entry}"
      by simp_all
  qed
qed

lemma grouped_foldl:
  "grouped groups seen \<Longrightarrow> grouped (foldl recordImport groups cs) (seen @ cs)"
proof (induction cs arbitrary: groups seen)
  case Nil
  then show ?case by simp
next
  case (Cons c cs)
  from Cons.IH[OF grouped_recordImport[OF Cons.prems, of c]] show ?case by simp
qed

lemma grouped_collectImports:
  "grouped (collectImports cs []) (concat (map allComponents cs))"
  using grouped_foldl[of "[]" "[]" "concat (map allComponents cs)"]
  by (simp add: collectImports_is_fold grouped_def)

text \<open>
  Claim C7, as stated, fails: for the end-to-end scenario the import section has the
  line \<open>import { Button } from '@salt-ds/core/Button';\<close>. The displayed symbol is
  Button, while the first segment after the package scope \<open>@salt-ds\<close> is \<open>core\<close>;
  and the three types, all of the package \<open>@salt-ds/core\<close>, are on three lines. The
  guide's variant prints the type names of a module on one line, and these are not
  segments of the module path either.
\<close>

theorem import_lines_counterexample:
  "importSection (\<lambda>r. []) (mapToSaltComponents scenario) =
     map importLine [''@salt-ds/core/StackLayout'', ''@salt-ds/core/Text'', ''@salt-ds/core/Button'']
   \<and> importLine ''@salt-ds/core/Button'' =
       ''import { Button } from '' @ [CHR 0x27] @ ''@salt-ds/core/Button'' @ [CHR 0x27] @ '';''
   \<and> firstSegmentAfterScope ''@salt-ds/core/Button'' = Some ''core''
   \<and> generateImports guideComponents =
       [''import { StackLayout, Text, Button } from '' @ [CHR 0x27] @ ''@salt-ds/core''
          @ [CHR 0x27] @ '';'']
   \<and> firstSegmentAfterScope ''@salt-ds/core'' = Some ''core''"
  by code_simp

text \<open>
  Claim C7, amended. In salt-component-mapper.ts the import section has, for every
  forest of mapped nodes, exactly one line per distinct import path of the forest, in
  order of first appearance in pre-order; each line names one symbol and imports it
  from the full path, and the symbol is the last segment of the path: for a path
  \<open>pre/seg\<close>, with no slash in \<open>seg\<close>, it is \<open>seg\<close>; for a path without a slash
  it is the path itself. In the guide's variant \<open>generateImports\<close> prints exactly one
  line per distinct module of the forest, and the line of a module lists, each once,
  the type names of all nodes imported from that module.
\<close>

theorem import_section_one_line_per_path:
  "importSection printValue components =
     map importLine (foldl setAdd [] (map c_import (concat (map allComponents components))))
   \<and> distinct (foldl setAdd [] (map c_import (concat (map allComponents components))))
   \<and> set (foldl setAdd [] (map c_import (concat (map allComponents components))))
       = importsOf components
   \<and> length (importSection printValue components) = card (importsOf components)
   \<and> importLine imp = ''import { '' @ lastSegment imp @ '' } from '' @ [CHR 0x27] @ imp
                        @ [CHR 0x27] @ '';''
   \<and> (CHR ''/'' \<notin> set seg \<longrightarrow> lastSegment (pre @ ''/'' @ seg) = seg)
   \<and> (CHR ''/'' \<notin> set seg \<longrightarrow> lastSegment seg = seg)
   \<and> generateImports components =
       map (\<lambda>entry. ''import { '' @ join '', '' (snd entry) @ '' } from '' @ [CHR 0x27]
                     @ fst entry @ [CHR 0x27] @ '';'')
         (collectImports components [])
   \<and> distinct (map fst (collectImports components []))
   \<and> set (map fst (collectImports components [])) = importsOf components
   \<and> length (generateImports components) = card (importsOf components)
   \<and> (\<forall>entry \<in> set (collectImports components []).
         distinct (snd entry)
         \<and> set (snd entry) = {c_type c | c. c \<in> set (concat (map allComponents components))
                                           \<and> c_import c = fst entry})"
proof -
  let ?imps = "foldl setAdd [] (map c_import (concat (map allComponents components)))"
  let ?groups = "collectImports components []"
  have d: "distinct ?imps" and s: "set ?imps = importsOf components"
    using foldl_setAdd[of "[]" "map c_import (concat (map allComponents components))"]
    by (simp_all add: importsOf_def)
  have sec: "importSection printValue components = map importLine ?imps"
    by (simp add: importSection_def imports_of_buildComponentTree)
  have len: "length (importSection printValue components) = card (importsOf components)"
    using d s sec distinct_card[of ?imps] by simp
  have p1: "CHR ''/'' \<notin> set seg \<longrightarrow> lastSegment (pre @ ''/'' @ seg) = seg"
    by (rule impI) (rule lastSegment_path)
  have p2: "CHR ''/'' \<notin> set seg \<longrightarrow> lastSegment seg = seg"
    by (rule impI) (rule lastSegment_plain)
  have line: "importLine imp = ''import { '' @ lastSegment imp @ '' } from '' @ [CHR 0x27] @ imp
                        @ [CHR 0x27] @ '';''"
    by (simp add: importLine_def)
  have g: "grouped ?groups (concat (map allComponents components))"
    by (rule grouped_collectImports)
  then have gd: "distinct (map fst ?groups)"
    and gk: "set (map fst ?groups) = importsOf components"
    and ge: "\<forall>entry \<in> set ?groups.
         distinct (snd entry)
         \<and> set (snd entry) = {c_type c | c. c \<in> set (concat (map allComponents components))
                                           \<and> c_import c = fst entry}"
    by (simp_all add: grouped_def importsOf_def)
  have gen: "generateImports components =
       map (\<lambda>entry. ''import { '' @ join '', '' (snd entry) @ '' } from '' @ [CHR 0x27]
                     @ fst entry @ [CHR 0x27] @ '';'') ?groups"
    by (simp add: generateImports_def)
  have "length (generateImports components) = length (map fst ?groups)"
    by (simp add: generateImports_def)
  also have "\<dots> = card (set (map fst ?groups))"
    using gd by (rule distinct_card[symmetric])
  finally have glen: "length (generateImports components) = card (importsOf components)"
    by (simp only: gk)
  from sec d s len line p1 p2 gen gd gk glen ge show ?thesis by blast
qed

text \<open>
  The hypotheses of C7 hold for the segments "Button" and "Box", which hold no slash,
  and for the one module of a forest built by the guide's mapper.
\<close>

theorem import_section_witness:
  "importSection (\<lambda>r. []) (mapToSaltComponents scenario) =
     map importLine [''@salt-ds/core/StackLayout'', ''@salt-ds/core/Text'', ''@salt-ds/core/Button'']
   \<and> CHR ''/'' \<notin> set ''Button''
   \<and> lastSegment ''@salt-ds/core/Button'' = ''Button''
   \<and> lastSegment ''Box'' = ''Box''
   \<and> (''@salt-ds/core'', [''StackLayout'', ''Text'', ''Button''])
        \<in> set (collectImports guideComponents [])
   \<and> set [''StackLayout'', ''Text'', ''Button'']
       = {c_type c | c. c \<in> set (concat (map allComponents guideComponents))
                        \<and> c_import c = ''@salt-ds/core''}"
proof -
  have a: "foldl setAdd [] (map c_import (concat (map allComponents (mapToSaltComponents scenario))))
           = [''@salt-ds/core/StackLayout'', ''@salt-ds/core/Text'', ''@salt-ds/core/Button'']"
    by code_simp
  have b: "CHR ''/'' \<notin> set ''Button''" "CHR ''/'' \<notin> set ''Box''" by simp_all
  have c: "collectImports guideComponents []
             = [(''@salt-ds/core'', [''StackLayout'', ''Text'', ''Button''])]"
    by code_simp
  note t = import_section_one_line_per_path
             [of "\<lambda>r. []" "mapToSaltComponents scenario" "[]" "''Button''" "''@salt-ds/core''"]
  note u = import_section_one_line_per_path
             [of "\<lambda>r. []" "mapToSaltComponents scenario" "[]" "''Box''" "[]"]
  note v = import_section_one_line_per_path
             [of "\<lambda>r. []" guideComponents "[]" "''Box''" "[]"]
  from t b have "lastSegment (''@salt-ds/core'' @ ''/'' @ ''Button'') = ''Button''" by blast
  moreover from u b have "lastSegment ''Box'' = ''Box''" by blast
  moreover from t a have "importSection (\<lambda>r. []) (mapToSaltComponents scenario) =
     map importLine [''@salt-ds/core/StackLayout'', ''@salt-ds/core/Text'', ''@salt-ds/core/Button'']"
    by simp
  moreover from v have "\<forall>entry \<in> set (collectImports guideComponents []).
         distinct (snd entry)
         \<and> set (snd entry) = {c_type c | c. c \<in> set (concat (map allComponents guideComponents))
                                           \<and> c_import c = fst entry}"
    by blast
  then have "set [''StackLayout'', ''Text'', ''Button'']
       = {c_type c | c. c \<in> set (concat (map allComponents guideComponents))
                        \<and> c_import c = ''@salt-ds/core''}"
    unfolding c by simp
  ultimately show ?thesis using b c by simp
qed

section \<open>The example cache\<close>

lemma fetchExampleFromQnA_cases:
  "fetchExampleFromQnA e t =
     Inr (case e t of Answered (Some a) \<Rightarrow> if a \<noteq> [] then Some a else None | _ \<Rightarrow> None)"
  by (simp add: fetchExampleFromQnA_def split: reply.splits option.splits)

lemma fetchStep_cached:
  "exampleCache st t = Some c \<Longrightarrow> fetchStep e st t = st\<lparr>examples := examples st @ [c]\<rparr>"
  by (simp add: fetchStep_def)

lemma fetchStep_fetched:
  "exampleCache st t = None \<Longrightarrow> e t = Answered (Some a) \<Longrightarrow> a \<noteq> [] \<Longrightarrow>
     fetchStep e st t =
       st\<lparr>requests := requests st @ [t], exampleCache := (exampleCache st)(t \<mapsto> a),
           examples := examples st @ [a]\<rparr>"
  by (simp add: fetchStep_def fetchExampleFromQnA_cases Let_def)

lemma fetchStep_nothing:
  "exampleCache st t = None \<Longrightarrow>
     e t = Failed \<or> e t = Answered None \<or> e t = Answered (Some []) \<Longrightarrow>
     fetchStep e st t = st\<lparr>requests := requests st @ [t]\<rparr>"
  by (auto simp: fetchStep_def fetchExampleFromQnA_cases Let_def)

lemma fetch_fold:
  assumes "distinct ts"
  shows "warnings (foldl (fetchStep e) st ts) = warnings st
   \<and> requests (foldl (fetchStep e) st ts)
       = requests st @ filter (\<lambda>t. exampleCache st t = None) ts
   \<and> examples (foldl (fetchStep e) st ts)
       = examples st @ List.map_filter
           (\<lambda>t. case exampleCache st t of Some c \<Rightarrow> Some c
                 | None \<Rightarrow> (case e t of Answered (Some a) \<Rightarrow> if a \<noteq> [] then Some a else None
                             | _ \<Rightarrow> None)) ts
   \<and> exampleCache (foldl (fetchStep e) st ts)
       = (\<lambda>t. case exampleCache st t of Some c \<Rightarrow> Some c
               | None \<Rightarrow> if t \<in> set ts
                          then (case e t of Answered (Some a) \<Rightarrow> if a \<noteq> [] then Some a else None
                                | _ \<Rightarrow> None)
                          else None)"
  using assms
proof (induction ts arbitrary: st)
  case Nil
  show ?case by (auto simp: List.map_filter_simps split: option.splits)
next
  case (Cons t ts)
  let ?got = "\<lambda>t. case e t of Answered (Some a) \<Rightarrow> if a \<noteq> [] then Some a else None | _ \<Rightarrow> None"
  let ?st' = "fetchStep e st t"
  from Cons.prems have t: "t \<notin> set ts" and d: "distinct ts" by simp_all
  note IH = Cons.IH[OF d, of ?st']
  have other: "exampleCache ?st' u = exampleCache st u" if "u \<noteq> t" for u
    using that by (auto simp: fetchStep_def fetchExampleFromQnA_cases Let_def split: option.splits)
  have tail: "exampleCache ?st' u = exampleCache st u" if "u \<in> set ts" for u
  proof -
    from that t have "u \<noteq> t" by blast
    then show ?thesis by (rule other)
  qed
  have same_filter: "filter (\<lambda>u. exampleCache ?st' u = None) ts
                       = filter (\<lambda>u. exampleCache st u = None) ts"
    by (rule filter_cong) (simp_all add: tail)
  have same_mf: "List.map_filter
           (\<lambda>u. case exampleCache ?st' u of Some c \<Rightarrow> Some c | None \<Rightarrow> ?got u) ts
         = List.map_filter
           (\<lambda>u. case exampleCache st u of Some c \<Rightarrow> Some c | None \<Rightarrow> ?got u) ts"
  proof -
    have "(case exampleCache ?st' u of Some c \<Rightarrow> Some c | None \<Rightarrow> ?got u)
          = (case exampleCache st u of Some c \<Rightarrow> Some c | None \<Rightarrow> ?got u)"
      if "u \<in> set ts" for u
      using tail[OF that] by simp
    then show ?thesis
      unfolding List.map_filter_def by (simp cong: map_cong filter_cong)
  qed
  have head:
    "warnings ?st' = warnings st"
    "requests ?st' = requests st @ (if exampleCache st t = None then [t] else [])"
    "examples ?st' = examples st @ (case (case exampleCache st t of Some c \<Rightarrow> Some c
                                          | None \<Rightarrow> ?got t) of Some x \<Rightarrow> [x] | None \<Rightarrow> [])"
    "exampleCache ?st' t = (case exampleCache st t of Some c \<Rightarrow> Some c | None \<Rightarrow> ?got t)"
    by (auto simp: fetchStep_def fetchExampleFromQnA_cases Let_def
             split: option.splits reply.splits)
  have cache: "exampleCache (foldl (fetchStep e) ?st' ts)
       = (\<lambda>u. case exampleCache st u of Some c \<Rightarrow> Some c
               | None \<Rightarrow> if u \<in> set (t # ts) then ?got u else None)"
  proof
    fix u
    show "exampleCache (foldl (fetchStep e) ?st' ts) u
       = (case exampleCache st u of Some c \<Rightarrow> Some c
               | None \<Rightarrow> if u \<in> set (t # ts) then ?got u else None)"
    proof (cases "u = t")
      case True
      with IH head(4) t show ?thesis by (auto split: option.splits)
    next
      case False
      with IH other[OF False] show ?thesis by (auto split: option.splits)
    qed
  qed
  from IH head same_filter same_mf cache show ?case
    by (auto simp: List.map_filter_simps split: option.splits)
qed

lemma componentTypes_distinct: "distinct (componentTypes cs)"
  using foldl_setAdd[of "[]" "map c_type cs"] by (simp add: componentTypes_def)

lemma fetchRelevantExamples_result:
  "warnings (fetchRelevantExamples e cs cache) = []
   \<and> requests (fetchRelevantExamples e cs cache)
       = filter (\<lambda>t. cache t = None) (componentTypes cs)
   \<and> examples (fetchRelevantExamples e cs cache)
       = List.map_filter
           (\<lambda>t. case cache t of Some c \<Rightarrow> Some c
                 | None \<Rightarrow> (case e t of Answered (Some a) \<Rightarrow> if a \<noteq> [] then Some a else None
                             | _ \<Rightarrow> None)) (componentTypes cs)
   \<and> exampleCache (fetchRelevantExamples e cs cache)
       = (\<lambda>t. case cache t of Some c \<Rightarrow> Some c
               | None \<Rightarrow> if t \<in> set (componentTypes cs)
                          then (case e t of Answered (Some a) \<Rightarrow> if a \<noteq> [] then Some a else None
                                | _ \<Rightarrow> None)
                          else None)"
  using fetch_fold[OF componentTypes_distinct, of e
          "\<lparr>examples = [], exampleCache = cache, requests = [], warnings = []\<rparr>" cs]
  by (simp add: fetchRelevantExamples_def)


lemma map_filter_removeAll:
  "f x = None \<Longrightarrow> List.map_filter f (removeAll x xs) = List.map_filter f xs"
  by (induction xs) (auto simp: List.map_filter_simps split: option.splits)

text \<open>
  Claim C9. A call of the example fetcher always returns, and prints no warning. Its
  examples are, per requested type in order, the cached example or else the non-empty
  answer of a successful request; a type whose request fails or answers with nothing
  contributes no entry. The cache afterwards holds an entry only where it held one
  before or a request succeeded with a non-empty answer. A type whose lookup failed or
  came back empty is not cached, and a second call that requests it sends a request
  again; a type fetched with success is cached, and a second call sends no request for
  it.
\<close>

theorem example_fetch_failure_not_cached:
  "warnings (fetchRelevantExamples e1 cs1 cache0) = []
   \<and> examples (fetchRelevantExamples e1 cs1 cache0)
       = List.map_filter
           (\<lambda>t. case cache0 t of Some c \<Rightarrow> Some c
                 | None \<Rightarrow> (case e1 t of Answered (Some a) \<Rightarrow> if a \<noteq> [] then Some a else None
                             | _ \<Rightarrow> None)) (componentTypes cs1)
   \<and> requests (fetchRelevantExamples e1 cs1 cache0)
       = filter (\<lambda>t. cache0 t = None) (componentTypes cs1)
   \<and> (exampleCache (fetchRelevantExamples e1 cs1 cache0) ty = Some x
        \<longrightarrow> cache0 ty = Some x
            \<or> (cache0 ty = None \<and> ty \<in> set (componentTypes cs1)
                \<and> e1 ty = Answered (Some x) \<and> x \<noteq> []))
   \<and> (ty \<in> set (componentTypes cs1) \<and> cache0 ty = None
        \<and> (e1 ty = Failed \<or> e1 ty = Answered None \<or> e1 ty = Answered (Some []))
      \<longrightarrow> exampleCache (fetchRelevantExamples e1 cs1 cache0) ty = None
          \<and> examples (fetchRelevantExamples e1 cs1 cache0)
              = List.map_filter
                  (\<lambda>t. case cache0 t of Some c \<Rightarrow> Some c
                        | None \<Rightarrow> (case e1 t of Answered (Some a) \<Rightarrow>
                                       if a \<noteq> [] then Some a else None
                                    | _ \<Rightarrow> None)) (removeAll ty (componentTypes cs1))
          \<and> (ty \<in> set (componentTypes cs2)
               \<longrightarrow> ty \<in> set (requests (fetchRelevantExamples e2 cs2
                                  (exampleCache (fetchRelevantExamples e1 cs1 cache0))))))
   \<and> (ty \<in> set (componentTypes cs1) \<and> cache0 ty = None
        \<and> e1 ty = Answered (Some a) \<and> a \<noteq> []
      \<longrightarrow> exampleCache (fetchRelevantExamples e1 cs1 cache0) ty = Some a
          \<and> ty \<in> set (requests (fetchRelevantExamples e1 cs1 cache0))
          \<and> ty \<notin> set (requests (fetchRelevantExamples e2 cs2
                                  (exampleCache (fetchRelevantExamples e1 cs1 cache0)))))"
proof -
  let ?F = "\<lambda>t. case cache0 t of Some c \<Rightarrow> Some c
                 | None \<Rightarrow> (case e1 t of Answered (Some a) \<Rightarrow> if a \<noteq> [] then Some a else None
                             | _ \<Rightarrow> None)"
  note r1 = fetchRelevantExamples_result[of e1 cs1 cache0]
  note r2 = fetchRelevantExamples_result[of e2 cs2
              "exampleCache (fetchRelevantExamples e1 cs1 cache0)"]
  have c1: "exampleCache (fetchRelevantExamples e1 cs1 cache0) ty
              = (case cache0 ty of Some c \<Rightarrow> Some c
                 | None \<Rightarrow> if ty \<in> set (componentTypes cs1)
                          then (case e1 ty of Answered (Some a) \<Rightarrow> if a \<noteq> [] then Some a else None
                                | _ \<Rightarrow> None)
                          else None)"
    using r1 by simp
  have req2: "requests (fetchRelevantExamples e2 cs2
                          (exampleCache (fetchRelevantExamples e1 cs1 cache0)))
              = filter (\<lambda>t. exampleCache (fetchRelevantExamples e1 cs1 cache0) t = None)
                  (componentTypes cs2)"
    using r2 by simp
  have p4: "exampleCache (fetchRelevantExamples e1 cs1 cache0) ty = Some x
        \<longrightarrow> cache0 ty = Some x
            \<or> (cache0 ty = None \<and> ty \<in> set (componentTypes cs1)
                \<and> e1 ty = Answered (Some x) \<and> x \<noteq> [])"
    unfolding c1 by (auto split: option.splits reply.splits if_splits)
  have p5: "exampleCache (fetchRelevantExamples e1 cs1 cache0) ty = None
          \<and> examples (fetchRelevantExamples e1 cs1 cache0)
              = List.map_filter ?F (removeAll ty (componentTypes cs1))
          \<and> (ty \<in> set (componentTypes cs2)
               \<longrightarrow> ty \<in> set (requests (fetchRelevantExamples e2 cs2
                                  (exampleCache (fetchRelevantExamples e1 cs1 cache0)))))"
    if h: "ty \<in> set (componentTypes cs1) \<and> cache0 ty = None
        \<and> (e1 ty = Failed \<or> e1 ty = Answered None \<or> e1 ty = Answered (Some []))"
  proof -
    from h have none: "exampleCache (fetchRelevantExamples e1 cs1 cache0) ty = None"
      unfolding c1 by auto
    from h have "?F ty = None" by auto
    then have "List.map_filter ?F (removeAll ty (componentTypes cs1))
                 = List.map_filter ?F (componentTypes cs1)"
      by (rule map_filter_removeAll)
    with r1 none show ?thesis unfolding req2 by simp
  qed
  have p6: "exampleCache (fetchRelevantExamples e1 cs1 cache0) ty = Some a
          \<and> ty \<in> set (requests (fetchRelevantExamples e1 cs1 cache0))
          \<and> ty \<notin> set (requests (fetchRelevantExamples e2 cs2
                                  (exampleCache (fetchRelevantExamples e1 cs1 cache0))))"
    if h: "ty \<in> set (componentTypes cs1) \<and> cache0 ty = None
        \<and> e1 ty = Answered (Some a) \<and> a \<noteq> []"
  proof -
    from h have some: "exampleCache (fetchRelevantExamples e1 cs1 cache0) ty = Some a"
      unfolding c1 by auto
    moreover from h r1 have "ty \<in> set (requests (fetchRelevantExamples e1 cs1 cache0))"
      by simp
    ultimately show ?thesis unfolding req2 by simp
  qed
  from r1 p4 p5 p6 show ?thesis by blast
qed

lemma fetch_run:
  "componentTypes twoComponents = [''Button'', ''Text'']"
  "buttonFails ''Button'' = Failed"
  "buttonFails ''Text'' = Answered (Some ''a text example'')"
  "(Map.empty :: string \<rightharpoonup> string) ''Button'' = None"
  "(Map.empty :: string \<rightharpoonup> string) ''Text'' = None"
  by (simp_all add: componentTypes_def twoComponents_def setAdd_def buttonFails_def)

text \<open>
  The hypotheses of C9 hold for a first call on Button and Text in which the Button
  request fails and the Text request succeeds, followed by a second call.
\<close>

theorem example_fetch_witness:
  "requests (fetchRelevantExamples buttonFails twoComponents Map.empty) = [''Button'', ''Text'']
   \<and> warnings (fetchRelevantExamples buttonFails twoComponents Map.empty) = []
   \<and> exampleCache (fetchRelevantExamples buttonFails twoComponents Map.empty) ''Button'' = None
   \<and> exampleCache (fetchRelevantExamples buttonFails twoComponents Map.empty) ''Text''
       = Some ''a text example''
   \<and> ''Button'' \<in> set (requests (fetchRelevantExamples allAnswered twoComponents
        (exampleCache (fetchRelevantExamples buttonFails twoComponents Map.empty))))
   \<and> ''Text'' \<notin> set (requests (fetchRelevantExamples allAnswered twoComponents
        (exampleCache (fetchRelevantExamples buttonFails twoComponents Map.empty))))"
  using example_fetch_failure_not_cached
          [of buttonFails twoComponents Map.empty "''Button''" "''x''" twoComponents allAnswered
              "''a''"]
        example_fetch_failure_not_cached
          [of buttonFails twoComponents Map.empty "''Text''" "''x''" twoComponents allAnswered
              "''a text example''"]
        fetch_run
  by simp

section \<open>The validator\<close>

lemma str_includes_iff: "str_includes s p \<longleftrightarrow> (\<exists>a b. s = a @ p @ b)"
proof (induction s)
  case Nil
  show ?case by auto
next
  case (Cons c cs)
  show ?case
  proof
    assume "str_includes (c # cs) p"
    then consider "prefix p (c # cs)" | "str_includes cs p" by auto
    then show "\<exists>a b. c # cs = a @ p @ b"
    proof cases
      case 1
      then obtain b where "c # cs = p @ b" by (auto simp: prefix_def)
      then have "c # cs = [] @ p @ b" by simp
      then show ?thesis by blast
    next
      case 2
      with Cons obtain a b where "cs = a @ p @ b" by blast
      then have "c # cs = (c # a) @ p @ b" by simp
      then show ?thesis by blast
    qed
  next
    assume "\<exists>a b. c # cs = a @ p @ b"
    then obtain a b where ab: "c # cs = a @ p @ b" by blast
    show "str_includes (c # cs) p"
    proof (cases a)
      case Nil
      with ab have "prefix p (c # cs)" by (simp add: prefix_def)
      then show ?thesis by simp
    next
      case (Cons x a')
      with ab have "cs = a' @ p @ b" by simp
      with Cons.IH have "str_includes cs p" by blast
      then show ?thesis by simp
    qed
  qed
qed

lemma splitOn_nonempty: "splitOn P s \<noteq> []"
  by (induction s) (auto split: list.splits)

lemma splitOn_prefix_line:
  "\<forall>c \<in> set p. \<not> P c \<Longrightarrow>
     splitOn P (p @ b) = (p @ hd (splitOn P b)) # tl (splitOn P b)"
proof (induction p)
  case Nil
  show ?case using splitOn_nonempty[of P b] by simp
next
  case (Cons c p)
  then show ?case by simp
qed

lemma occurrence_within_a_line:
  assumes "\<forall>c \<in> set p. \<not> P c"
  shows "\<exists>l \<in> set (splitOn P (a @ p @ b)). \<exists>a' b'. l = a' @ p @ b'"
proof (induction a)
  case Nil
  have "splitOn P (p @ b) = ([] @ p @ hd (splitOn P b)) # tl (splitOn P b)"
    using splitOn_prefix_line[OF assms] by simp
  then show ?case by (metis append_Nil list.set_intros(1))
next
  case (Cons c a)
  then obtain l a' b' where l: "l \<in> set (splitOn P (a @ p @ b))" "l = a' @ p @ b'" by blast
  show ?case
  proof (cases "P c")
    case True
    with l show ?thesis by auto
  next
    case False
    obtain w ws where w: "splitOn P (a @ p @ b) = w # ws"
      using splitOn_nonempty[of P "a @ p @ b"] by (cases "splitOn P (a @ p @ b)") auto
    with False have r: "splitOn P ((c # a) @ p @ b) = (c # w) # ws" by simp
    from l w consider "l = w" | "l \<in> set ws" by auto
    then show ?thesis
    proof cases
      case 1
      with l have "c # w = (c # a') @ p @ b'" by simp
      with r show ?thesis by (metis list.set_intros(1))
    next
      case 2
      then have "l \<in> set ((c # w) # ws)" by simp
      with r l(2) show ?thesis by metis
    qed
  qed
qed

lemma afterFirst_decomp: "afterFirst p s = Some r \<Longrightarrow> \<exists>y. s = y @ p @ r"
proof (induction s)
  case Nil
  then show ?case by (auto split: if_splits)
next
  case (Cons c cs)
  show ?case
  proof (cases "prefix p (c # cs)")
    case True
    with Cons.prems have "r = drop (length p) (c # cs)" by simp
    moreover from True obtain b where "c # cs = p @ b" by (auto simp: prefix_def)
    ultimately have "c # cs = [] @ p @ r" by simp
    then show ?thesis by blast
  next
    case False
    with Cons obtain y where "cs = y @ p @ r" by auto
    then have "c # cs = (c # y) @ p @ r" by simp
    then show ?thesis by blast
  qed
qed

lemma afterFirst_Some: "\<exists>r. afterFirst p (a @ p @ b) = Some r \<and> suffix b r"
proof (induction a)
  case Nil
  show ?case
  proof (cases "p @ b")
    case Nil
    then show ?thesis by simp
  next
    case (Cons c cs)
    then have "afterFirst p (p @ b) = Some (drop (length p) (p @ b))"
      by (metis afterFirst.simps(2) prefixI)
    then show ?thesis by simp
  qed
next
  case (Cons c a)
  show ?case
  proof (cases "prefix p (c # a @ p @ b)")
    case True
    then have "afterFirst p ((c # a) @ p @ b) = Some (drop (length p) ((c # a) @ p @ b))"
      by simp
    moreover have "suffix b (drop (length p) ((c # a) @ p @ b))"
    proof -
      have "drop (length (c # a)) (drop (length p) ((c # a) @ p @ b))
              = drop (length p + length (c # a)) ((c # a) @ p @ b)"
        by (simp add: add.commute)
      also have "\<dots> = b" by simp
      finally show ?thesis by (metis suffix_drop)
    qed
    ultimately show ?thesis by blast
  next
    case False
    with Cons show ?thesis by simp
  qed
qed

lemma inOrder_suffix: "inOrder ps b \<Longrightarrow> suffix b r \<Longrightarrow> inOrder ps r"
proof (induction ps arbitrary: b r)
  case Nil
  show ?case by simp
next
  case (Cons p ps)
  from Cons.prems(1) obtain b1 where b1: "afterFirst p b = Some b1" "inOrder ps b1"
    by (auto split: option.splits)
  from afterFirst_decomp[OF b1(1)] obtain y where "b = y @ p @ b1" by blast
  moreover from Cons.prems(2) obtain x where "r = x @ b" by (auto simp: suffix_def)
  ultimately have "r = (x @ y) @ p @ b1" by simp
  with afterFirst_Some[of p "x @ y" b1] obtain r1 where
    "afterFirst p r = Some r1" "suffix b1 r1" by auto
  with Cons.IH[OF b1(2)] show ?case by simp
qed

lemma inOrder_Cons: "inOrder ps b \<Longrightarrow> inOrder (p # ps) (a @ p @ b)"
proof -
  assume h: "inOrder ps b"
  from afterFirst_Some[of p a b] obtain r where "afterFirst p (a @ p @ b) = Some r" "suffix b r"
    by blast
  with inOrder_suffix[OF h] show ?thesis by simp
qed

lemma pattern_text_mentions_import:
  assumes noterm: "\<forall>c \<in> set cname. c \<noteq> CHR 0x0A \<and> c \<noteq> CHR 0x0D"
    and inc: "str_includes code (importPattern cname)"
  shows "importMentions cname code"
proof -
  let ?P = "\<lambda>c. c = CHR 0x0A \<or> c = CHR 0x0D"
  from inc obtain a b where "code = a @ importPattern cname @ b"
    by (auto simp: str_includes_iff)
  moreover have "\<forall>c \<in> set (importPattern cname). \<not> ?P c"
    using noterm by (auto simp: importPattern_def)
  ultimately obtain l a' b' where l: "l \<in> set (splitOn ?P code)"
      and l': "l = a' @ importPattern cname @ b'"
    using occurrence_within_a_line[of "importPattern cname" ?P a b] by blast
  have "inOrder [''@salt-ds''] (''.*'' @ ''@salt-ds'' @ b')" by (rule inOrder_Cons) simp
  then have "inOrder [''from'', ''@salt-ds''] (''.*'' @ ''from'' @ (''.*'' @ ''@salt-ds'' @ b'))"
    by (rule inOrder_Cons)
  then have "inOrder [cname, ''from'', ''@salt-ds'']
               (''.*'' @ cname @ (''.*'' @ ''from'' @ (''.*'' @ ''@salt-ds'' @ b')))"
    by (rule inOrder_Cons)
  then have "inOrder [''import'', cname, ''from'', ''@salt-ds'']
               (a' @ ''import'' @ (''.*'' @ cname @ (''.*'' @ ''from'' @ (''.*'' @ ''@salt-ds'' @ b'))))"
    by (rule inOrder_Cons)
  moreover have "a' @ ''import'' @ (''.*'' @ cname @ (''.*'' @ ''from'' @ (''.*'' @ ''@salt-ds'' @ b')))
                 = l"
    by (simp add: l' importPattern_def)
  ultimately have "inOrder [''import'', cname, ''from'', ''@salt-ds''] l" by simp
  with l show ?thesis by (auto simp: importMentions_def list_ex_iff)
qed

lemma foldl_push:
  "foldl (\<lambda>errs c. if Q c then errs @ [f c] else errs) acc cs
     = acc @ concat (map (\<lambda>c. if Q c then [f c] else []) cs)"
  by (induction cs arbitrary: acc) simp_all

lemma errors_of_validateReactCode:
  "errors (validateReactCode message (Some code)) =
     (if \<not> str_includes code ''@salt-ds/core'' then [''Missing Salt Design System imports'']
      else [])
     @ (if \<not> (str_includes code ''export default'' \<or> str_includes code ''export {'')
        then [''Component must be exported''] else [])
     @ concat (map (\<lambda>cname. if str_includes code (''<'' @ cname)
                                 \<and> \<not> str_includes code (importPattern cname)
                              then [cname @ '' component used but not imported from Salt'']
                              else []) saltComponents)"
  by (simp add: validateReactCode_def Let_def foldl_push)

lemma valid_iff_no_errors:
  "valid (validateReactCode message arg) \<longleftrightarrow> errors (validateReactCode message arg) = []"
  by (cases arg) (simp_all add: validateReactCode_def Let_def)

lemma names_Button:
  "\<not> str_includes ''Missing Salt Design System imports'' ''Button''"
  "\<not> str_includes ''Component must be exported'' ''Button''"
  "str_includes (''Button'' @ '' component used but not imported from Salt'') ''Button''"
  "\<not> str_includes (''Input'' @ '' component used but not imported from Salt'') ''Button''"
  "\<not> str_includes (''Card'' @ '' component used but not imported from Salt'') ''Button''"
  "\<not> str_includes (''Stack'' @ '' component used but not imported from Salt'') ''Button''"
  "\<not> str_includes (''Flex'' @ '' component used but not imported from Salt'') ''Button''"
  by code_simp+

lemma button_error_once:
  assumes "str_includes code ''<Button''" and "\<not> str_includes code (importPattern ''Button'')"
  shows "filter (\<lambda>e. str_includes e ''Button'') (errors (validateReactCode message (Some code)))
           = [''Button component used but not imported from Salt'']"
proof -
  let ?names = "\<lambda>e. str_includes e ''Button''"
  let ?g = "\<lambda>cname. if str_includes code (''<'' @ cname)
                          \<and> \<not> str_includes code (importPattern cname)
                       then [cname @ '' component used but not imported from Salt'']
                       else []"
  have a: "filter ?names (if \<not> str_includes code ''@salt-ds/core''
                          then [''Missing Salt Design System imports''] else []) = []"
    using names_Button(1) by simp
  have b: "filter ?names (if \<not> (str_includes code ''export default''
                                 \<or> str_includes code ''export {'')
                          then [''Component must be exported''] else []) = []"
    using names_Button(2) by simp
  from assms have "?g ''Button'' = [''Button'' @ '' component used but not imported from Salt'']"
    by simp
  then have c1: "filter ?names (?g ''Button'')
                   = [''Button component used but not imported from Salt'']"
    using names_Button(3) by simp
  have c2: "filter ?names (?g ''Input'') = []" using names_Button(4) by simp
  have c3: "filter ?names (?g ''Card'') = []" using names_Button(5) by simp
  have c4: "filter ?names (?g ''Stack'') = []" using names_Button(6) by simp
  have c5: "filter ?names (?g ''Flex'') = []" using names_Button(7) by simp
  have "concat (map ?g saltComponents)
          = ?g ''Button'' @ ?g ''Input'' @ ?g ''Card'' @ ?g ''Stack'' @ ?g ''Flex''"
    by (simp only: saltComponents_def list.map concat.simps append_Nil2)
  then have c: "filter ?names (concat (map ?g saltComponents))
                  = [''Button component used but not imported from Salt'']"
    by (simp only: filter_append c1 c2 c3 c4 c5 append_Nil2)
  show ?thesis
    by (simp only: errors_of_validateReactCode filter_append a b c append_Nil)
qed

text \<open>
  What holds of \<open>validateReactCode\<close>. Its result is valid exactly when its error list
  is empty. For code that contains \<open><Button\<close> and no import statement mentioning
  Button, exactly one error names Button; the same holds, in the terms of the source,
  whenever the code contains \<open><Button\<close> and not the literal text
  \<open>import.*Button.*from.*@salt-ds\<close>. Code that contains \<open>export default\<close> and
  \<open>@salt-ds/core\<close> and none of the five catalog component tags is valid, with no
  error.
\<close>

lemma validator_valid_iff_no_errors:
  "(valid (validateReactCode message arg) \<longleftrightarrow> errors (validateReactCode message arg) = [])
   \<and> (str_includes code ''<Button'' \<and> \<not> importMentions ''Button'' code
        \<longrightarrow> filter (\<lambda>e. str_includes e ''Button'')
              (errors (validateReactCode message (Some code)))
            = [''Button component used but not imported from Salt''])
   \<and> (str_includes code ''<Button'' \<and> \<not> str_includes code (importPattern ''Button'')
        \<longrightarrow> filter (\<lambda>e. str_includes e ''Button'')
              (errors (validateReactCode message (Some code)))
            = [''Button component used but not imported from Salt''])
   \<and> (str_includes code ''export default'' \<and> str_includes code ''@salt-ds/core''
        \<and> (\<forall>cname \<in> set saltComponents. \<not> str_includes code (''<'' @ cname))
        \<longrightarrow> valid (validateReactCode message (Some code))
            \<and> errors (validateReactCode message (Some code)) = [])"
proof (intro conjI impI)
  show "valid (validateReactCode message arg) \<longleftrightarrow> errors (validateReactCode message arg) = []"
    by (rule valid_iff_no_errors)
next
  assume h: "str_includes code ''<Button'' \<and> \<not> importMentions ''Button'' code"
  have "\<forall>c \<in> set ''Button''. c \<noteq> CHR 0x0A \<and> c \<noteq> CHR 0x0D" by simp
  with h have "\<not> str_includes code (importPattern ''Button'')"
    using pattern_text_mentions_import by blast
  with h show "filter (\<lambda>e. str_includes e ''Button'')
              (errors (validateReactCode message (Some code)))
            = [''Button component used but not imported from Salt'']"
    by (simp add: button_error_once)
next
  assume "str_includes code ''<Button'' \<and> \<not> str_includes code (importPattern ''Button'')"
  then show "filter (\<lambda>e. str_includes e ''Button'')
              (errors (validateReactCode message (Some code)))
            = [''Button component used but not imported from Salt'']"
    by (simp add: button_error_once)
next
  assume h: "str_includes code ''export default'' \<and> str_includes code ''@salt-ds/core''
        \<and> (\<forall>cname \<in> set saltComponents. \<not> str_includes code (''<'' @ cname))"
  then have "concat (map (\<lambda>cname. if str_includes code (''<'' @ cname)
                                 \<and> \<not> str_includes code (importPattern cname)
                              then [cname @ '' component used but not imported from Salt'']
                              else []) saltComponents) = []"
    by simp
  with h have e: "errors (validateReactCode message (Some code)) = []"
    by (simp only: errors_of_validateReactCode) simp
  then show "valid (validateReactCode message (Some code))"
    by (simp add: valid_iff_no_errors)
  from e show "errors (validateReactCode message (Some code)) = []" .
qed

lemma sample_facts:
  "str_includes buttonWithoutImport ''<Button''"
  "\<not> importMentions ''Button'' buttonWithoutImport"
  "str_includes plainExport ''export default''"
  "str_includes plainExport ''@salt-ds/core''"
  "\<forall>cname \<in> set saltComponents. \<not> str_includes plainExport (''<'' @ cname)"
  by code_simp+

text \<open>
  These hypotheses hold for a component that uses Button without importing anything,
  and for one that imports from \<open>@salt-ds/core\<close> and uses no catalog tag.
\<close>

lemma validator_witness:
  "str_includes buttonWithoutImport ''<Button''
   \<and> \<not> importMentions ''Button'' buttonWithoutImport
   \<and> filter (\<lambda>e. str_includes e ''Button'')
        (errors (validateReactCode [] (Some buttonWithoutImport)))
       = [''Button component used but not imported from Salt'']
   \<and> str_includes plainExport ''export default'' \<and> str_includes plainExport ''@salt-ds/core''
   \<and> valid (validateReactCode [] (Some plainExport))
   \<and> errors (validateReactCode [] (Some plainExport)) = []"
  using validator_valid_iff_no_errors [of "[]" "Some plainExport" buttonWithoutImport]
        validator_valid_iff_no_errors [of "[]" "Some plainExport" plainExport]
        sample_facts
  by blast

text \<open>
  Claim C8 fails on the code where the component uses Button and imports it. The
  source tests for the import with \<open>code.includes\<close> on the text
  \<open>import.*Button.*from.*@salt-ds\<close>, which only a regular expression would read as a
  pattern; the code of a real import never contains that text. For the component
  \<open>importedButton\<close>, which has \<open>export default\<close>, an import from \<open>@salt-ds/core\<close> that
  mentions Button, the tag \<open><Button\<close> and no other catalog component tag, the validator
  reports the Button error and answers \<open>valid = false\<close>, where the claim says
  \<open>valid: true\<close>.
\<close>

theorem validator_rejects_imported_button:
  "str_includes importedButton ''export default''
   \<and> str_includes importedButton ''@salt-ds/core''
   \<and> importMentions ''Button'' importedButton
   \<and> str_includes importedButton ''<Button''
   \<and> \<not> str_includes importedButton ''<Input''
   \<and> \<not> str_includes importedButton ''<Card''
   \<and> \<not> str_includes importedButton ''<Stack''
   \<and> \<not> str_includes importedButton ''<Flex''
   \<and> errors (validateReactCode [] (Some importedButton))
       = [''Button component used but not imported from Salt'']
   \<and> valid (validateReactCode [] (Some importedButton)) = False"
  by code_simp

section \<open>Spacing buckets\<close>

lemma mapSpacing_Px:
  "mapSpacing (Some (Px x)) =
     (if x \<le> 4 then 1 else if x \<le> 8 then 2 else if x \<le> 16 then 3
      else if x \<le> 24 then 4 else if x \<le> 32 then 5 else 6)"
  by (simp add: mapSpacing_def)

text \<open>
  Claim C5, as stated, fails: the bucket function is not idempotent. The bucket of 8
  pixels is 2, and the bucket of 2 pixels is 1.
\<close>

theorem mapSpacing_idempotent_counterexample:
  "mapSpacing (Some (Px 8)) = 2 \<and> mapSpacing (Some (Px (mapSpacing (Some (Px 8))))) = 1
   \<and> mapSpacing (Some (Px (mapSpacing (Some (Px 8))))) \<noteq> mapSpacing (Some (Px 8))"
  by (simp add: mapSpacing_Px)

text \<open>
  Claim C5, amended. On pixel values the bucket function is monotonic, its values are
  the six bucket numbers 1..6, and the boundary values round down (4, 8, 16, 24, 32 go
  to 1, 2, 3, 4, 5, and 33 goes to 6). Bucketing a bucket number gives the same bucket
  exactly when the pixel value is at most 4.
\<close>

theorem mapSpacing_monotone_not_idempotent:
  "(x \<le> y \<longrightarrow> mapSpacing (Some (Px x)) \<le> mapSpacing (Some (Px y)))
   \<and> mapSpacing (Some (Px x)) \<in> {1, 2, 3, 4, 5, 6}
   \<and> (mapSpacing (Some (Px (mapSpacing (Some (Px x))))) = mapSpacing (Some (Px x)) \<longleftrightarrow> x \<le> 4)
   \<and> mapSpacing (Some (Px 4)) = 1 \<and> mapSpacing (Some (Px 8)) = 2
   \<and> mapSpacing (Some (Px 16)) = 3 \<and> mapSpacing (Some (Px 24)) = 4
   \<and> mapSpacing (Some (Px 32)) = 5 \<and> mapSpacing (Some (Px 33)) = 6"
  by (simp add: mapSpacing_Px)

theorem mapSpacing_monotone_witness:
  "(5::real) \<le> 20 \<and> mapSpacing (Some (Px 5)) \<le> mapSpacing (Some (Px 20))
   \<and> mapSpacing (Some (Px 5)) = 2 \<and> mapSpacing (Some (Px 20)) = 4
   \<and> mapSpacing (Some (Px (mapSpacing (Some (Px 3))))) = mapSpacing (Some (Px 3))"
  using mapSpacing_monotone_not_idempotent [of 5 20] mapSpacing_monotone_not_idempotent [of 3 3]
  by (simp add: mapSpacing_Px)

end
